theory Spec2Isabelle
  imports Main
begin

section \<open>Byte strings\<close>

text \<open>
  A Go \<^verbatim>\<open>string\<close> or \<^verbatim>\<open>[]byte\<close> is a sequence of bytes; it is modelled by
  \<^typ>\<open>string\<close>, whose characters are bytes. \<open>byte c\<close> is the numeric value of a byte.
\<close>

abbreviation byte :: "char \<Rightarrow> nat" where
  "byte c \<equiv> of_char c"

definition isDigit :: "char \<Rightarrow> bool" where
  "isDigit c \<longleftrightarrow> 48 \<le> byte c \<and> byte c \<le> 57"

definition isHex :: "char \<Rightarrow> bool" where
  "isHex c \<longleftrightarrow> isDigit c \<or> (97 \<le> byte c \<and> byte c \<le> 102) \<or> (65 \<le> byte c \<and> byte c \<le> 70)"

definition hexVal :: "char \<Rightarrow> nat" where
  "hexVal c = (if isDigit c then byte c - 48
               else if 97 \<le> byte c then byte c - 87 else byte c - 55)"

definition digitsVal :: "string \<Rightarrow> int" where
  "digitsVal ds = foldl (\<lambda>n c. 10 * n + int (byte c - 48)) 0 ds"

subsection \<open>UTF-8 (package unicode/utf8)\<close>

definition RuneError :: string where
  "RuneError = [CHR 0xEF, CHR 0xBF, CHR 0xBD]"

definition isCont :: "char \<Rightarrow> bool" where
  "isCont c \<longleftrightarrow> 0x80 \<le> byte c \<and> byte c \<le> 0xBF"

text \<open>
  \<open>runeSize s\<close> is the width of the well-formed UTF-8 sequence at the head of \<open>s\<close>, and
  \<open>0\<close> where \<^verbatim>\<open>utf8.DecodeRune\<close> answers \<^verbatim>\<open>(RuneError, 1)\<close>: a byte that starts no
  well-formed sequence, or an empty input.
\<close>

definition secondOk :: "nat \<Rightarrow> char \<Rightarrow> bool" where
  "secondOk b c \<longleftrightarrow>
     (if b = 0xE0 then 0xA0 \<le> byte c \<and> byte c \<le> 0xBF
      else if b = 0xED then 0x80 \<le> byte c \<and> byte c \<le> 0x9F
      else if b = 0xF0 then 0x90 \<le> byte c \<and> byte c \<le> 0xBF
      else if b = 0xF4 then 0x80 \<le> byte c \<and> byte c \<le> 0x8F
      else isCont c)"

definition runeSize :: "string \<Rightarrow> nat" where
  "runeSize s =
     (case s of
        [] \<Rightarrow> 0
      | c # cs \<Rightarrow>
          (let b = byte c in
           if b < 0x80 then 1
           else if 0xC2 \<le> b \<and> b \<le> 0xDF then
             (case cs of c1 # _ \<Rightarrow> if isCont c1 then 2 else 0 | _ \<Rightarrow> 0)
           else if 0xE0 \<le> b \<and> b \<le> 0xEF then
             (case cs of c1 # c2 # _ \<Rightarrow> if secondOk b c1 \<and> isCont c2 then 3 else 0 | _ \<Rightarrow> 0)
           else if 0xF0 \<le> b \<and> b \<le> 0xF4 then
             (case cs of c1 # c2 # c3 # _ \<Rightarrow>
                if secondOk b c1 \<and> isCont c2 \<and> isCont c3 then 4 else 0 | _ \<Rightarrow> 0)
           else 0))"

text \<open>\<^verbatim>\<open>utf8.EncodeRune\<close>: surrogates and values beyond U+10FFFF are written as U+FFFD.\<close>

definition EncodeRune :: "nat \<Rightarrow> string" where
  "EncodeRune r =
     (if r < 0x80 then [char_of r]
      else if r < 0x800 then [char_of (0xC0 + r div 64), char_of (0x80 + r mod 64)]
      else if (0xD800 \<le> r \<and> r < 0xE000) \<or> 0x10FFFF < r then RuneError
      else if r < 0x10000 then
        [char_of (0xE0 + r div 4096), char_of (0x80 + (r div 64) mod 64), char_of (0x80 + r mod 64)]
      else
        [char_of (0xF0 + r div 262144), char_of (0x80 + (r div 4096) mod 64),
         char_of (0x80 + (r div 64) mod 64), char_of (0x80 + r mod 64)])"

section \<open>JSON decoding (package encoding/json)\<close>

text \<open>
  \<^verbatim>\<open>json.Unmarshal(body, &apiError)\<close> first checks that the whole input is one well-formed
  JSON text and then stores the members of that text into the fields of the struct. The
  first half is modelled by a scanner and a parser (\<open>lex\<close>, \<open>parse\<close>), the second by
  \<open>decodeError\<close>.
\<close>

datatype json =
    JNull
  | JBool bool
  | JNumber string
  | JString string
  | JArray "json list"
  | JObject "(string \<times> json) list"

datatype token = TLBrace | TRBrace | TLBrack | TRBrack | TColon | TComma | TScalar json

subsection \<open>String literals\<close>

datatype sstate = InString | InStringEsc | InStringEscU nat

text \<open>
  The scanner's states \<^verbatim>\<open>stateInString\<close>, \<^verbatim>\<open>stateInStringEsc\<close> and
  \<^verbatim>\<open>stateInStringEscU...\<close>: the input starts after the opening quote; the result is the
  text up to the closing quote, escapes still in place, and the input after it.
\<close>

fun scanString :: "sstate \<Rightarrow> string \<Rightarrow> string \<Rightarrow> (string \<times> string) option" where
  "scanString st acc [] = None"
| "scanString InString acc (c # cs) =
     (if c = CHR 0x22 then Some (rev acc, cs)
      else if c = CHR 0x5C then scanString InStringEsc (c # acc) cs
      else if byte c < 0x20 then None
      else scanString InString (c # acc) cs)"
| "scanString InStringEsc acc (c # cs) =
     (if c \<in> set ''bfnrt/'' \<or> c = CHR 0x5C \<or> c = CHR 0x22 then scanString InString (c # acc) cs
      else if c = CHR ''u'' then scanString (InStringEscU 4) (c # acc) cs
      else None)"
| "scanString (InStringEscU n) acc (c # cs) =
     (if isHex c then scanString (if n \<le> 1 then InString else InStringEscU (n - 1)) (c # acc) cs
      else None)"

text \<open>\<^verbatim>\<open>getu4\<close>: the value of a \<^verbatim>\<open>\uXXXX\<close> escape at the head of the input.\<close>

definition getu4 :: "string \<Rightarrow> nat option" where
  "getu4 s =
     (if 6 \<le> length s \<and> s ! 0 = CHR 0x5C \<and> s ! 1 = CHR ''u'' \<and> list_all isHex (take 4 (drop 2 s))
      then Some (foldl (\<lambda>r c. r * 16 + hexVal c) 0 (take 4 (drop 2 s)))
      else None)"

definition simpleEscape :: "char \<Rightarrow> char option" where
  "simpleEscape e =
     (if e = CHR 0x22 \<or> e = CHR 0x5C \<or> e = CHR ''/'' \<or> e = CHR 0x27 then Some e
      else if e = CHR ''b'' then Some (CHR 0x08)
      else if e = CHR ''f'' then Some (CHR 0x0C)
      else if e = CHR ''n'' then Some (CHR 0x0A)
      else if e = CHR ''r'' then Some (CHR 0x0D)
      else if e = CHR ''t'' then Some (CHR 0x09)
      else None)"

definition utf16Pair :: "nat \<Rightarrow> nat option \<Rightarrow> nat option" where
  "utf16Pair r1 r2 =
     (case r2 of
        None \<Rightarrow> None
      | Some lo \<Rightarrow>
          if 0xD800 \<le> r1 \<and> r1 < 0xDC00 \<and> 0xDC00 \<le> lo \<and> lo < 0xE000
          then Some ((r1 - 0xD800) * 1024 + (lo - 0xDC00) + 0x10000) else None)"

text \<open>
  \<^verbatim>\<open>unquoteBytes\<close> without the two quotes: escapes are replaced, a valid surrogate pair is
  one rune, a lone surrogate and every byte that is not part of well-formed UTF-8 become
  U+FFFD. \<open>None\<close> is Go's \<^verbatim>\<open>ok = false\<close>, for a literal the scanner would not
  have let through.
\<close>

function unquote :: "string \<Rightarrow> string option" where
  "unquote [] = Some []"
| "unquote (c # cs) =
     (if c = CHR 0x5C then
        (case cs of
           [] \<Rightarrow> None
         | e # r \<Rightarrow>
             if e = CHR ''u'' then
               (case getu4 (c # cs) of
                  None \<Rightarrow> None
                | Some rr \<Rightarrow>
                    if 0xD800 \<le> rr \<and> rr < 0xE000 then
                      (case utf16Pair rr (getu4 (drop 5 cs)) of
                         Some dec \<Rightarrow> map_option ((@) (EncodeRune dec)) (unquote (drop 11 cs))
                       | None \<Rightarrow> map_option ((@) RuneError) (unquote (drop 5 cs)))
                    else map_option ((@) (EncodeRune rr)) (unquote (drop 5 cs)))
             else
               (case simpleEscape e of
                  None \<Rightarrow> None
                | Some x \<Rightarrow> map_option ((#) x) (unquote r)))
      else if c = CHR 0x22 \<or> byte c < 0x20 then None
      else if byte c < 0x80 then map_option ((#) c) (unquote cs)
      else if runeSize (c # cs) = 0 then map_option ((@) RuneError) (unquote cs)
      else map_option ((@) (take (runeSize (c # cs)) (c # cs)))
             (unquote (drop (runeSize (c # cs) - 1) cs)))"
  by pat_completeness auto
termination
  by (relation "measure length") auto

subsection \<open>Numbers\<close>

text \<open>
  The scanner's states \<^verbatim>\<open>stateNeg\<close>, \<^verbatim>\<open>state0\<close>, \<^verbatim>\<open>state1\<close>, \<^verbatim>\<open>stateDot\<close>,
  \<^verbatim>\<open>stateDot0\<close>, \<^verbatim>\<open>stateE\<close>, \<^verbatim>\<open>stateESign\<close>, \<^verbatim>\<open>stateE0\<close>: the literal and the
  input after it.
\<close>

definition scanExp :: "string \<Rightarrow> string \<Rightarrow> (string \<times> string) option" where
  "scanExp lit s =
     (case s of
        [] \<Rightarrow> Some (lit, s)
      | e # r \<Rightarrow>
          if e = CHR ''e'' \<or> e = CHR ''E'' then
            (let sg = (case r of [] \<Rightarrow> [] | x # _ \<Rightarrow> if x = CHR ''+'' \<or> x = CHR ''-'' then [x] else []);
                 r' = drop (length sg) r;
                 ds = takeWhile isDigit r'
             in if ds = [] then None else Some (lit @ [e] @ sg @ ds, dropWhile isDigit r'))
          else Some (lit, s))"

definition scanFrac :: "string \<Rightarrow> string \<Rightarrow> (string \<times> string) option" where
  "scanFrac lit s =
     (case s of
        [] \<Rightarrow> Some (lit, s)
      | d # r \<Rightarrow>
          if d = CHR ''.'' then
            (let ds = takeWhile isDigit r
             in if ds = [] then None else scanExp (lit @ [d] @ ds) (dropWhile isDigit r))
          else scanExp lit s)"

definition scanNumber :: "string \<Rightarrow> (string \<times> string) option" where
  "scanNumber s =
     (let sg = (case s of [] \<Rightarrow> [] | x # _ \<Rightarrow> if x = CHR ''-'' then [x] else []);
          s1 = drop (length sg) s
      in case s1 of
           [] \<Rightarrow> None
         | d # r \<Rightarrow>
             if d = CHR ''0'' then scanFrac (sg @ [d]) r
             else if isDigit d then scanFrac (sg @ d # takeWhile isDigit r) (dropWhile isDigit r)
             else None)"

subsection \<open>Tokens\<close>

definition isSpace :: "char \<Rightarrow> bool" where
  "isSpace c \<longleftrightarrow> c = CHR '' '' \<or> c = CHR 0x09 \<or> c = CHR 0x0D \<or> c = CHR 0x0A"

definition punct :: "char \<Rightarrow> token option" where
  "punct c =
     (if c = CHR ''{'' then Some TLBrace
      else if c = CHR ''}'' then Some TRBrace
      else if c = CHR ''['' then Some TLBrack
      else if c = CHR '']'' then Some TRBrack
      else if c = CHR '':'' then Some TColon
      else if c = CHR '','' then Some TComma
      else None)"

definition keyword :: "string \<Rightarrow> (json \<times> nat) option" where
  "keyword s =
     (if take 4 s = ''true'' then Some (JBool True, 4)
      else if take 5 s = ''false'' then Some (JBool False, 5)
      else if take 4 s = ''null'' then Some (JNull, 4)
      else None)"

function lex :: "string \<Rightarrow> token list option" where
  "lex [] = Some []"
| "lex (c # cs) =
     (if isSpace c then lex cs
      else if punct c \<noteq> None then map_option ((#) (the (punct c))) (lex cs)
      else if c = CHR 0x22 then
        (case scanString InString [] cs of
           None \<Rightarrow> None
         | Some (raw, rest) \<Rightarrow>
             (case unquote raw of
                None \<Rightarrow> None
              | Some s \<Rightarrow> map_option ((#) (TScalar (JString s))) (lex rest)))
      else if c = CHR ''-'' \<or> isDigit c then
        (case scanNumber (c # cs) of
           None \<Rightarrow> None
         | Some (lit, rest) \<Rightarrow> map_option ((#) (TScalar (JNumber lit))) (lex rest))
      else
        (case keyword (c # cs) of
           None \<Rightarrow> None
         | Some (v, n) \<Rightarrow> map_option ((#) (TScalar v)) (lex (drop (n - 1) cs))))"
  by pat_completeness auto
termination
proof -
  have str: "length rest < length s"
    if "scanString st acc s = Some (raw, rest)" for st acc s raw rest
    using that by (induction st acc s rule: scanString.induct) (auto split: if_splits)
  have dw: "length (dropWhile P xs) \<le> m" if "length xs \<le> m" for P :: "char \<Rightarrow> bool" and xs m
    using that length_dropWhile_le [of P xs] by simp
  have ex: "length rest \<le> length s"
    if "scanExp lit s = Some (l, rest)" for lit s l rest
    using that unfolding scanExp_def Let_def
    by (simp split: list.splits if_splits) (auto intro: dw)
  have fr: "length rest \<le> length s"
    if a: "scanFrac lit s = Some (l, rest)" for lit s l rest
  proof (cases s)
    case Nil
    with a show ?thesis by (simp add: scanFrac_def)
  next
    case (Cons d r)
    show ?thesis
    proof (cases "d = CHR ''.''")
      case True
      with a Cons
      have "scanExp (lit @ [d] @ takeWhile isDigit r) (dropWhile isDigit r) = Some (l, rest)"
        by (simp add: scanFrac_def Let_def split: if_splits)
      then have "length rest \<le> length (dropWhile isDigit r)"
        by (rule ex)
      also have "\<dots> \<le> length r"
        by (rule length_dropWhile_le)
      finally show ?thesis using Cons by simp
    next
      case False
      with a Cons have "scanExp lit s = Some (l, rest)"
        by (simp add: scanFrac_def)
      then show ?thesis by (rule ex)
    qed
  qed
  have num: "length rest < length s"
    if a: "scanNumber s = Some (l, rest)" for s l rest
  proof -
    define sg where "sg = (case s of [] \<Rightarrow> [] | x # _ \<Rightarrow> if x = CHR ''-'' then [x] else [])"
    have le: "length (drop (length sg) s) \<le> length s"
      by simp
    from a obtain d r where s1: "drop (length sg) s = d # r"
      by (auto simp: scanNumber_def Let_def sg_def split: list.splits if_splits)
    from a s1 have "(\<exists>lit'. scanFrac lit' r = Some (l, rest))
        \<or> (\<exists>lit'. scanFrac lit' (dropWhile isDigit r) = Some (l, rest))"
      unfolding scanNumber_def Let_def sg_def [symmetric]
      by (auto split: if_splits)
    then have "length rest \<le> length r"
      using fr dw [of r "length r" isDigit]
      by (metis order_refl order_trans)
    moreover have "length r < length s"
      using le s1 by simp
    ultimately show ?thesis by simp
  qed
  show ?thesis
    by (relation "measure length") (auto dest: str num)
qed

subsection \<open>Values\<close>

text \<open>
  The scanner keeps a stack of the arrays and objects that are open and refuses to open
  more than \<^verbatim>\<open>maxNestingDepth\<close> of them. A frame holds the members read so far, newest
  first, and for an object the key whose value is awaited.
\<close>

datatype frame = FArray "json list" | FObject "(string \<times> json) list" "string option"

datatype pmode =
    WantValue | WantValueOrEnd | WantKey | WantKeyOrEnd | WantColon | AfterValue | Done json

definition maxNestingDepth :: nat where
  "maxNestingDepth = 10000"

definition pushValue :: "json \<Rightarrow> frame list \<Rightarrow> (pmode \<times> frame list) option" where
  "pushValue v st =
     (case st of
        [] \<Rightarrow> Some (Done v, [])
      | FArray acc # r \<Rightarrow> Some (AfterValue, FArray (v # acc) # r)
      | FObject acc (Some k) # r \<Rightarrow> Some (AfterValue, FObject ((k, v) # acc) None # r)
      | FObject acc None # r \<Rightarrow> None)"

definition closeFrame :: "frame list \<Rightarrow> (pmode \<times> frame list) option" where
  "closeFrame st =
     (case st of
        [] \<Rightarrow> None
      | FArray acc # r \<Rightarrow> pushValue (JArray (rev acc)) r
      | FObject acc k # r \<Rightarrow> pushValue (JObject (rev acc)) r)"

definition isArrayFrame :: "frame list \<Rightarrow> bool" where
  "isArrayFrame st = (case st of FArray acc # r \<Rightarrow> True | _ \<Rightarrow> False)"

definition isObjectFrame :: "frame list \<Rightarrow> bool" where
  "isObjectFrame st = (case st of FObject acc k # r \<Rightarrow> True | _ \<Rightarrow> False)"

definition beginValue :: "bool \<Rightarrow> frame list \<Rightarrow> token \<Rightarrow> (pmode \<times> frame list) option" where
  "beginValue mayEnd st t =
     (case t of
        TScalar v \<Rightarrow> pushValue v st
      | TLBrack \<Rightarrow> if length st < maxNestingDepth then Some (WantValueOrEnd, FArray [] # st) else None
      | TLBrace \<Rightarrow> if length st < maxNestingDepth then Some (WantKeyOrEnd, FObject [] None # st) else None
      | TRBrack \<Rightarrow> if mayEnd \<and> isArrayFrame st then closeFrame st else None
      | _ \<Rightarrow> None)"

definition beginKey :: "bool \<Rightarrow> frame list \<Rightarrow> token \<Rightarrow> (pmode \<times> frame list) option" where
  "beginKey mayEnd st t =
     (case t of
        TScalar (JString k) \<Rightarrow>
          (case st of FObject acc x # r \<Rightarrow> Some (WantColon, FObject acc (Some k) # r) | _ \<Rightarrow> None)
      | TRBrace \<Rightarrow> if mayEnd \<and> isObjectFrame st then closeFrame st else None
      | _ \<Rightarrow> None)"

definition endValue :: "frame list \<Rightarrow> token \<Rightarrow> (pmode \<times> frame list) option" where
  "endValue st t =
     (if isArrayFrame st then
        (if t = TComma then Some (WantValue, st) else if t = TRBrack then closeFrame st else None)
      else if isObjectFrame st then
        (if t = TComma then Some (WantKey, st) else if t = TRBrace then closeFrame st else None)
      else None)"

definition step :: "pmode \<times> frame list \<Rightarrow> token \<Rightarrow> (pmode \<times> frame list) option" where
  "step s t =
     (case s of (m, st) \<Rightarrow>
        (case m of
           WantValue \<Rightarrow> beginValue False st t
         | WantValueOrEnd \<Rightarrow> beginValue True st t
         | WantKey \<Rightarrow> beginKey False st t
         | WantKeyOrEnd \<Rightarrow> beginKey True st t
         | WantColon \<Rightarrow> if t = TColon then Some (WantValue, st) else None
         | AfterValue \<Rightarrow> endValue st t
         | Done v \<Rightarrow> None))"

fun run :: "pmode \<times> frame list \<Rightarrow> token list \<Rightarrow> (pmode \<times> frame list) option" where
  "run s [] = Some s"
| "run s (t # ts) = (case step s t of None \<Rightarrow> None | Some s' \<Rightarrow> run s' ts)"

definition parse :: "token list \<Rightarrow> json option" where
  "parse ts =
     (case run (WantValue, []) ts of
        Some (Done v, st) \<Rightarrow> Some v
      | _ \<Rightarrow> None)"

text \<open>\<open>checkValid\<close>: the JSON value of a well-formed text, \<open>None\<close> for a syntax error.\<close>

definition checkValid :: "string \<Rightarrow> json option" where
  "checkValid data = (case lex data of None \<Rightarrow> None | Some ts \<Rightarrow> parse ts)"

subsection \<open>Storing a value into the struct\<close>

text \<open>
  A member is stored into the field whose JSON name equals its key under Unicode simple
  case folding, and skipped when there is none. The names of this struct are ASCII, and
  the only runes outside ASCII that fold to an ASCII letter are U+017F (to \<open>S\<close>) and
  U+212A (to \<open>K\<close>): \<open>foldASCII\<close> maps these and the lower-case letters and keeps every
  other byte, so that two names match exactly when their images are equal.
\<close>

function foldASCII :: "string \<Rightarrow> string" where
  "foldASCII [] = []"
| "foldASCII (c # cs) =
     (if 97 \<le> byte c \<and> byte c \<le> 122
        then (''ABCDEFGHIJKLMNOPQRSTUVWXYZ'' ! (byte c - 97)) # foldASCII cs
      else if c = CHR 0xC5 \<and> take 1 cs = [CHR 0xBF] then CHR ''S'' # foldASCII (drop 1 cs)
      else if c = CHR 0xE2 \<and> take 2 cs = [CHR 0x84, CHR 0xAA] then CHR ''K'' # foldASCII (drop 2 cs)
      else c # foldASCII cs)"
  by pat_completeness auto
termination
  by (relation "measure length") auto

definition equalFold :: "string \<Rightarrow> string \<Rightarrow> bool" where
  "equalFold s name \<longleftrightarrow> foldASCII s = foldASCII name"

text \<open>
  The struct of the source: the JSON names are \<^verbatim>\<open>error\<close> (with \<^verbatim>\<open>message\<close> inside) and
  \<^verbatim>\<open>type\<close>; \<^verbatim>\<open>StatusCode\<close> and \<^verbatim>\<open>Endpoint\<close> carry no tag, so their JSON names are the
  field names.
\<close>

record APIErrorBody =
  Message :: string

record Error =
  APIError :: APIErrorBody
  Type :: string
  StatusCode :: int
  Endpoint :: string

datatype jsonError = SyntaxError | UnmarshalTypeError

text \<open>
  \<^verbatim>\<open>strconv.ParseInt(lit, 10, 64)\<close> on a JSON number literal. The field is a Go
  \<^verbatim>\<open>int\<close>, of 64 bits on the platforms the provider is built for, so every value
  \<^verbatim>\<open>ParseInt\<close> accepts is stored.
\<close>

definition parseInt64 :: "string \<Rightarrow> int option" where
  "parseInt64 lit =
     (let neg = (take 1 lit = ''-'');
          ds = (if neg then drop 1 lit else lit);
          n = (if neg then - digitsVal ds else digitsVal ds)
      in if ds \<noteq> [] \<and> list_all isDigit ds \<and> - (2 ^ 63) \<le> n \<and> n < 2 ^ 63 then Some n else None)"

text \<open>
  Each store answers whether the value fitted the field. A value of the wrong kind leaves
  the field as it is and is remembered as an \<^verbatim>\<open>UnmarshalTypeError\<close>, and decoding goes on;
  \<^verbatim>\<open>null\<close> leaves a string, an int or a struct as it is and is no error.
\<close>

definition storeString :: "json \<Rightarrow> string \<Rightarrow> bool \<times> string" where
  "storeString v old = (case v of JString s \<Rightarrow> (True, s) | JNull \<Rightarrow> (True, old) | _ \<Rightarrow> (False, old))"

definition storeInt :: "json \<Rightarrow> int \<Rightarrow> bool \<times> int" where
  "storeInt v old =
     (case v of
        JNumber lit \<Rightarrow> (case parseInt64 lit of Some n \<Rightarrow> (True, n) | None \<Rightarrow> (False, old))
      | JNull \<Rightarrow> (True, old)
      | _ \<Rightarrow> (False, old))"

definition storeBodyMember :: "string \<times> json \<Rightarrow> bool \<times> APIErrorBody \<Rightarrow> bool \<times> APIErrorBody" where
  "storeBodyMember kv s =
     (case kv of (k, v) \<Rightarrow> case s of (ok, b) \<Rightarrow>
        if equalFold k ''message''
        then (case storeString v (Message b) of (ok', m) \<Rightarrow> (ok \<and> ok', b\<lparr>Message := m\<rparr>))
        else (ok, b))"

definition storeBody :: "json \<Rightarrow> APIErrorBody \<Rightarrow> bool \<times> APIErrorBody" where
  "storeBody v old =
     (case v of
        JObject ms \<Rightarrow> fold storeBodyMember ms (True, old)
      | JNull \<Rightarrow> (True, old)
      | _ \<Rightarrow> (False, old))"

definition storeErrorMember :: "string \<times> json \<Rightarrow> bool \<times> Error \<Rightarrow> bool \<times> Error" where
  "storeErrorMember kv s =
     (case kv of (k, v) \<Rightarrow> case s of (ok, e) \<Rightarrow>
        if equalFold k ''error''
          then (case storeBody v (APIError e) of (ok', b) \<Rightarrow> (ok \<and> ok', e\<lparr>APIError := b\<rparr>))
        else if equalFold k ''type''
          then (case storeString v (Type e) of (ok', t) \<Rightarrow> (ok \<and> ok', e\<lparr>Type := t\<rparr>))
        else if equalFold k ''StatusCode''
          then (case storeInt v (StatusCode e) of (ok', n) \<Rightarrow> (ok \<and> ok', e\<lparr>StatusCode := n\<rparr>))
        else if equalFold k ''Endpoint''
          then (case storeString v (Endpoint e) of (ok', p) \<Rightarrow> (ok \<and> ok', e\<lparr>Endpoint := p\<rparr>))
        else (ok, e))"

definition decodeError :: "json \<Rightarrow> Error \<Rightarrow> bool \<times> Error" where
  "decodeError v old =
     (case v of
        JObject ms \<Rightarrow> fold storeErrorMember ms (True, old)
      | JNull \<Rightarrow> (True, old)
      | _ \<Rightarrow> (False, old))"

text \<open>
  \<^verbatim>\<open>json.Unmarshal(data, &e)\<close>: the error it returns and the struct afterwards. A syntax
  error leaves the struct untouched.
\<close>

definition json_Unmarshal :: "string \<Rightarrow> Error \<Rightarrow> jsonError option \<times> Error" where
  "json_Unmarshal data e =
     (case checkValid data of
        None \<Rightarrow> (Some SyntaxError, e)
      | Some v \<Rightarrow>
          (case decodeError v e of (ok, e') \<Rightarrow> (if ok then None else Some UnmarshalTypeError, e')))"

section \<open>The HTTP request and response (package net/http)\<close>

text \<open>
  A header maps a canonical key to the list of its values. \<^verbatim>\<open>Header.Set\<close> replaces the
  list by one value, \<^verbatim>\<open>Header.Add\<close> appends to it. The keys the source uses,
  \<^verbatim>\<open>Authorization\<close> and \<^verbatim>\<open>Content-Type\<close>, are canonical as written.
\<close>

type_synonym Header = "string \<rightharpoonup> string list"

text \<open>
  The request as the source builds it. The type \<open>'u\<close> is that of a parsed URL
  (\<^verbatim>\<open>*url.URL\<close>), which the source never looks into.
\<close>

record 'u Request =
  Method :: string
  URL :: 'u
  Header :: Header
  Body :: "string option"
  Close :: bool

definition Header_Set :: "string \<Rightarrow> string \<Rightarrow> 'u Request \<Rightarrow> 'u Request" where
  "Header_Set key v req = req\<lparr>Header := (Header req)(key \<mapsto> [v])\<rparr>"

definition Header_Add :: "string \<Rightarrow> string \<Rightarrow> 'u Request \<Rightarrow> 'u Request" where
  "Header_Add key v req =
     req\<lparr>Header := (Header req)(key \<mapsto> (case Header req key of None \<Rightarrow> [] | Some vs \<Rightarrow> vs) @ [v])\<rparr>"

text \<open>
  The response as the source reads it: the status code, and what \<^verbatim>\<open>io.ReadAll(resp.Body)\<close>
  gives, the read error (\<open>Inl\<close>) or the whole body.
\<close>

record Response =
  RespStatusCode :: int
  RespBody :: "string + string"

subsection \<open>NewRequest\<close>

definition isTokenChar :: "char \<Rightarrow> bool" where
  "isTokenChar c \<longleftrightarrow>
     isDigit c \<or> (97 \<le> byte c \<and> byte c \<le> 122) \<or> (65 \<le> byte c \<and> byte c \<le> 90)
     \<or> byte c \<in> {0x21, 0x23, 0x24, 0x25, 0x26, 0x27, 0x2A, 0x2B, 0x2D, 0x2E, 0x5E, 0x5F, 0x60, 0x7C, 0x7E}"

definition validMethod :: "string \<Rightarrow> bool" where
  "validMethod method \<longleftrightarrow> method \<noteq> [] \<and> list_all isTokenChar method"

text \<open>
  The two errors of \<^verbatim>\<open>http.NewRequest\<close>: \<open>InvalidMethod m\<close> is the error it makes for
  the method \<open>m\<close> (its text is \<^verbatim>\<open>net/http: invalid method\<close> and \<open>m\<close> in quotes),
  \<open>URLError e\<close> is the error \<open>e\<close> of parsing the URL, handed on.
\<close>

datatype requestError = InvalidMethod string | URLError string

text \<open>
  \<^verbatim>\<open>http.NewRequest\<close>: an empty method means \<^verbatim>\<open>GET\<close>, a method that is no token is an
  error, and so is a URL that cannot be parsed. What the standard library makes of the URL
  text is the parameter \<open>urlParse\<close>: it stands for \<^verbatim>\<open>url.Parse\<close> together with the
  removal of an empty port that \<^verbatim>\<open>NewRequest\<close> applies to the result, and gives the error
  (\<open>Inl\<close>) or the URL of the request.
\<close>

definition NewRequest ::
  "(string \<Rightarrow> string + 'u) \<Rightarrow> string \<Rightarrow> string \<Rightarrow> string option \<Rightarrow> requestError + 'u Request" where
  "NewRequest urlParse method url body =
     (let m = (if method = [] then ''GET'' else method)
      in if \<not> validMethod m then Inl (InvalidMethod m)
         else (case urlParse url of
                 Inl err \<Rightarrow> Inl (URLError err)
               | Inr u \<Rightarrow> Inr \<lparr>Method = m, URL = u, Header = Map.empty, Body = body, Close = False\<rparr>))"

subsection \<open>Basic authentication\<close>

definition encodeStd :: string where
  "encodeStd = ''ABCDEFGHIJKLMNOPQRSTUVWXYZabcdefghijklmnopqrstuvwxyz0123456789+/''"

text \<open>\<^verbatim>\<open>base64.StdEncoding.EncodeToString\<close>, on the values of the bytes.\<close>

fun base64 :: "nat list \<Rightarrow> string" where
  "base64 (a # b # c # rest) =
     [encodeStd ! (a div 4), encodeStd ! ((a mod 4) * 16 + b div 16),
      encodeStd ! ((b mod 16) * 4 + c div 64), encodeStd ! (c mod 64)] @ base64 rest"
| "base64 [a, b] =
     [encodeStd ! (a div 4), encodeStd ! ((a mod 4) * 16 + b div 16),
      encodeStd ! ((b mod 16) * 4), CHR ''='']"
| "base64 [a] = [encodeStd ! (a div 4), encodeStd ! ((a mod 4) * 16), CHR ''='', CHR ''='']"
| "base64 [] = []"

definition basicAuth :: "string \<Rightarrow> string \<Rightarrow> string" where
  "basicAuth username password = base64 (map byte (username @ '':'' @ password))"

definition SetBasicAuth :: "string \<Rightarrow> string \<Rightarrow> 'u Request \<Rightarrow> 'u Request" where
  "SetBasicAuth username password req =
     Header_Set ''Authorization'' (''Basic '' @ basicAuth username password) req"

subsection \<open>OAuth2 tokens (package golang.org/x/oauth2)\<close>

record Token =
  AccessToken :: string
  TokenType :: string

definition Token_Type :: "Token \<Rightarrow> string" where
  "Token_Type t =
     (if equalFold (TokenType t) ''bearer'' then ''Bearer''
      else if equalFold (TokenType t) ''mac'' then ''MAC''
      else if equalFold (TokenType t) ''basic'' then ''Basic''
      else if TokenType t \<noteq> [] then TokenType t
      else ''Bearer'')"

definition SetAuthHeader :: "Token \<Rightarrow> 'u Request \<Rightarrow> 'u Request" where
  "SetAuthHeader t req = Header_Set ''Authorization'' (Token_Type t @ '' '' @ AccessToken t) req"

section \<open>The client\<close>

text \<open>
  The two collaborators are objects with state of their own. A token source is modelled
  by what its \<^verbatim>\<open>Token()\<close> answers at each call, the error (\<open>Inl\<close>) or the token; an
  HTTP client by what its \<^verbatim>\<open>Do\<close> answers to each request, the response and the error,
  each of which may be nil. Both are indexed by the number of calls made before.
\<close>

type_synonym TokenSource = "nat \<Rightarrow> string + Token"

type_synonym 'u HTTPClient = "nat \<Rightarrow> 'u Request \<Rightarrow> Response option \<times> string option"

record 'u Client =
  Username :: "string option"
  Password :: "string option"
  OAuthToken :: "string option"
  OAuthTokenSource :: "TokenSource option"
  HTTPClient :: "'u HTTPClient option"

text \<open>
  The state a call works on: the client the receiver points to, the requests handed to the
  HTTP client so far (oldest first) and the number of tokens asked of the token source.
\<close>

record 'u world =
  client :: "'u Client"
  sent :: "'u Request list"
  tokenCalls :: nat

text \<open>The errors \<^verbatim>\<open>Do\<close> returns, by where they come from; the last is the API error.\<close>

datatype goError =
    NewRequestError requestError
  | TokenError string
  | TransportError string
  | ReadAllError string
  | BitbucketError Error

text \<open>What a call does: it returns a response and an error, each possibly nil, or it panics.\<close>

datatype result = Return "Response option" "goError option" | Panic

definition BitbucketEndpoint :: string where
  "BitbucketEndpoint = ''https://api.bitbucket.org/''"

subsection \<open>Error.Error\<close>

function decimal :: "nat \<Rightarrow> string" where
  "decimal n = (if n < 10 then [''0123456789'' ! n] else decimal (n div 10) @ [''0123456789'' ! (n mod 10)])"
  by pat_completeness auto
termination
  by (relation "measure id") auto

declare decimal.simps [simp del]

text \<open>The verb \<^verbatim>\<open>%d\<close> of \<^verbatim>\<open>fmt.Sprintf\<close>.\<close>

definition fmt_d :: "int \<Rightarrow> string" where
  "fmt_d i = (if i < 0 then ''-'' @ decimal (nat (- i)) else decimal (nat i))"

definition Error_Error :: "Error \<Rightarrow> string" where
  "Error_Error e =
     ''API Error: '' @ fmt_d (StatusCode e) @ '' '' @ Endpoint e @ '' '' @ Message (APIError e)"

subsection \<open>Do\<close>

text \<open>
  The calls of \<^verbatim>\<open>log.Printf\<close> write to the process log and have no part in what is
  returned or sent; they are left out. The body of \<^verbatim>\<open>Do\<close> is translated in three
  parts: \<open>setAuth\<close> is its three authentication blocks, \<open>respond\<close> is everything after
  the call of \<^verbatim>\<open>c.HTTPClient.Do\<close>, and \<open>Do\<close> is the whole.
\<close>

text \<open>
  The three \<^verbatim>\<open>if\<close> blocks on \<^verbatim>\<open>c.Username\<close> and \<^verbatim>\<open>c.Password\<close>, on
  \<^verbatim>\<open>c.OAuthToken\<close> and on \<^verbatim>\<open>c.OAuthTokenSource\<close>, in this order. The result is the
  error of the token source, or the request with its headers set.
\<close>

definition setAuth ::
  "'u Client \<Rightarrow> 'u Request \<Rightarrow> 'u world \<Rightarrow> (string \<times> 'u world) + ('u Request \<times> 'u world)" where
  "setAuth c req0 w =
     (let req1 = (if Username c \<noteq> None \<and> Password c \<noteq> None
                  then SetBasicAuth (the (Username c)) (the (Password c)) req0 else req0);
          req2 = (case OAuthToken c of
                    None \<Rightarrow> req1
                  | Some t \<Rightarrow> Header_Add ''Authorization'' (''Bearer '' @ t) req1)
      in case OAuthTokenSource c of
           None \<Rightarrow> Inr (req2, w)
         | Some ts \<Rightarrow>
             (case ts (tokenCalls w) of
                Inl err \<Rightarrow> Inl (err, w\<lparr>tokenCalls := Suc (tokenCalls w)\<rparr>)
              | Inr token \<Rightarrow> Inr (SetAuthHeader token req2, w\<lparr>tokenCalls := Suc (tokenCalls w)\<rparr>)))"

text \<open>
  From \<^verbatim>\<open>if resp.StatusCode >= 400 || resp.StatusCode < 200\<close> to the end: \<open>resp\<close> and
  \<open>err\<close> are what \<^verbatim>\<open>c.HTTPClient.Do(req)\<close> returned. Reading the status code of a nil
  response is a nil pointer dereference.
\<close>

definition respond :: "string \<Rightarrow> Response option \<Rightarrow> string option \<Rightarrow> result" where
  "respond endpoint resp err =
     (case resp of
        None \<Rightarrow> Panic
      | Some r \<Rightarrow>
          if RespStatusCode r \<ge> 400 \<or> RespStatusCode r < 200 then
            (let apiError = \<lparr>APIError = \<lparr>Message = []\<rparr>, Type = [],
                             StatusCode = RespStatusCode r, Endpoint = endpoint\<rparr>
             in case RespBody r of
                  Inl rerr \<Rightarrow> Return None (Some (ReadAllError rerr))
                | Inr body \<Rightarrow>
                    (case json_Unmarshal body apiError of (jerr, apiError') \<Rightarrow>
                       Return (Some r) (Some (BitbucketError
                         (if jerr \<noteq> None
                          then apiError'\<lparr>APIError := (APIError apiError')\<lparr>Message := body\<rparr>\<rparr>
                          else apiError')))))
          else Return (Some r) (map_option TransportError err))"

definition Do ::
  "(string \<Rightarrow> string + 'u) \<Rightarrow> string \<Rightarrow> string \<Rightarrow> string option \<Rightarrow> bool \<Rightarrow> 'u world
     \<Rightarrow> result \<times> 'u world" where
  "Do urlParse method endpoint payload addJsonHeader w =
     (let c = client w;
          absoluteendpoint = BitbucketEndpoint @ endpoint
      in case NewRequest urlParse method absoluteendpoint payload of
           Inl err \<Rightarrow> (Return None (Some (NewRequestError err)), w)
         | Inr req0 \<Rightarrow>
             (case setAuth c req0 w of
                Inl (err, w1) \<Rightarrow> (Return None (Some (TokenError err)), w1)
              | Inr (req3, w1) \<Rightarrow>
                  (let req4 = (if payload \<noteq> None \<and> addJsonHeader
                               then Header_Add ''Content-Type'' ''application/json'' req3 else req3);
                       req = req4\<lparr>Close := True\<rparr>
                   in case HTTPClient c of
                        None \<Rightarrow> (Panic, w1)
                      | Some httpClient \<Rightarrow>
                          (case httpClient (length (sent w1)) req of (resp, err) \<Rightarrow>
                             (respond endpoint resp err, w1\<lparr>sent := sent w1 @ [req]\<rparr>)))))"

subsection \<open>The helpers\<close>

definition Get :: "(string \<Rightarrow> string + 'u) \<Rightarrow> string \<Rightarrow> 'u world \<Rightarrow> result \<times> 'u world" where
  "Get urlParse endpoint w = Do urlParse ''GET'' endpoint None True w"

definition Post :: "(string \<Rightarrow> string + 'u) \<Rightarrow> string \<Rightarrow> string option \<Rightarrow> 'u world \<Rightarrow> result \<times> 'u world" where
  "Post urlParse endpoint jsonpayload w = Do urlParse ''POST'' endpoint jsonpayload True w"

definition PostNonJson :: "(string \<Rightarrow> string + 'u) \<Rightarrow> string \<Rightarrow> string option \<Rightarrow> 'u world \<Rightarrow> result \<times> 'u world" where
  "PostNonJson urlParse endpoint jsonpayload w = Do urlParse ''POST'' endpoint jsonpayload False w"

definition Put :: "(string \<Rightarrow> string + 'u) \<Rightarrow> string \<Rightarrow> string option \<Rightarrow> 'u world \<Rightarrow> result \<times> 'u world" where
  "Put urlParse endpoint jsonpayload w = Do urlParse ''PUT'' endpoint jsonpayload True w"

definition PutOnly :: "(string \<Rightarrow> string + 'u) \<Rightarrow> string \<Rightarrow> 'u world \<Rightarrow> result \<times> 'u world" where
  "PutOnly urlParse endpoint w = Do urlParse ''PUT'' endpoint None True w"

definition Delete :: "(string \<Rightarrow> string + 'u) \<Rightarrow> string \<Rightarrow> 'u world \<Rightarrow> result \<times> 'u world" where
  "Delete urlParse endpoint w = Do urlParse ''DELETE'' endpoint None True w"

section \<open>What json.Unmarshal leaves in the struct\<close>

text \<open>
  The outcome of \<open>decodeError\<close> said without the traversal. \<open>fitsError v\<close>: the value
  is \<^verbatim>\<open>null\<close> or an object in which every member that names a field has a value of the
  kind of that field, or \<^verbatim>\<open>null\<close>. \<open>errorMessages v\<close>: the strings given for
  \<^verbatim>\<open>message\<close> inside the objects given for \<^verbatim>\<open>error\<close>, in the order of the text.
\<close>

definition fitsString :: "json \<Rightarrow> bool" where
  "fitsString v = (case v of JString s \<Rightarrow> True | JNull \<Rightarrow> True | _ \<Rightarrow> False)"

definition fitsInt :: "json \<Rightarrow> bool" where
  "fitsInt v = (case v of JNumber lit \<Rightarrow> parseInt64 lit \<noteq> None | JNull \<Rightarrow> True | _ \<Rightarrow> False)"

definition fitsBody :: "json \<Rightarrow> bool" where
  "fitsBody v =
     (case v of
        JObject ms \<Rightarrow> list_all (\<lambda>kv. equalFold (fst kv) ''message'' \<longrightarrow> fitsString (snd kv)) ms
      | JNull \<Rightarrow> True
      | _ \<Rightarrow> False)"

definition fitsMember :: "string \<times> json \<Rightarrow> bool" where
  "fitsMember kv =
     (if equalFold (fst kv) ''error'' then fitsBody (snd kv)
      else if equalFold (fst kv) ''type'' then fitsString (snd kv)
      else if equalFold (fst kv) ''StatusCode'' then fitsInt (snd kv)
      else if equalFold (fst kv) ''Endpoint'' then fitsString (snd kv)
      else True)"

definition fitsError :: "json \<Rightarrow> bool" where
  "fitsError v = (case v of JObject ms \<Rightarrow> list_all fitsMember ms | JNull \<Rightarrow> True | _ \<Rightarrow> False)"

definition stringsOf :: "json \<Rightarrow> string list" where
  "stringsOf v = (case v of JString s \<Rightarrow> [s] | _ \<Rightarrow> [])"

definition bodyMessages :: "json \<Rightarrow> string list" where
  "bodyMessages v =
     (case v of
        JObject ms \<Rightarrow> concat (map (\<lambda>kv. if equalFold (fst kv) ''message'' then stringsOf (snd kv) else []) ms)
      | _ \<Rightarrow> [])"

definition errorMessages :: "json \<Rightarrow> string list" where
  "errorMessages v =
     (case v of
        JObject ms \<Rightarrow> concat (map (\<lambda>kv. if equalFold (fst kv) ''error'' then bodyMessages (snd kv) else []) ms)
      | _ \<Rightarrow> [])"

text \<open>The nested \<^verbatim>\<open>error.message\<close> of a value: the last string given, empty when there is none.\<close>

definition nestedMessage :: "json \<Rightarrow> string" where
  "nestedMessage v = last ([] # errorMessages v)"

section \<open>Example configurations\<close>

text \<open>
  Concrete collaborators on which the model is evaluated: a \<open>urlParse\<close> that refuses
  nothing and gives each URL as its text, an HTTP client that gives the same answer to every request, a token source that
  gives the same answer at every call, a client configured for basic authentication, and
  the state before any call.
\<close>

definition acceptURL :: "string \<Rightarrow> string + string" where
  "acceptURL url = Inr url"

definition answers :: "Response option \<Rightarrow> string option \<Rightarrow> 'u HTTPClient" where
  "answers resp err n req = (resp, err)"

definition tokenAnswer :: "string + Token \<Rightarrow> TokenSource" where
  "tokenAnswer a n = a"

definition basicClient :: "'u HTTPClient \<Rightarrow> 'u Client" where
  "basicClient h =
     \<lparr>Username = Some ''u'', Password = Some ''p'', OAuthToken = None,
      OAuthTokenSource = None, HTTPClient = Some h\<rparr>"

definition fresh :: "'u Client \<Rightarrow> 'u world" where
  "fresh c = \<lparr>client = c, sent = [], tokenCalls = 0\<rparr>"

definition reply :: "int \<Rightarrow> string \<Rightarrow> Response" where
  "reply code body = \<lparr>RespStatusCode = code, RespBody = Inr body\<rparr>"

section \<open>Properties of the scanner\<close>

text \<open>
  A string literal that the scanner accepts is always unquoted: the case \<^verbatim>\<open>ok = false\<close>
  of \<^verbatim>\<open>unquoteBytes\<close> does not arise behind the scanner, so \<open>lex\<close> refuses a text only
  where the scanner does.
\<close>

lemma scanString_shape:
  "scanString st acc s = Some (raw, rest) \<Longrightarrow> \<exists>r. raw = rev acc @ r \<and> s = r @ CHR 0x22 # rest"
  by (induction st acc s rule: scanString.induct) (auto split: if_splits)

lemma scanString_high:
  "\<forall>b \<in> set p. 0x80 \<le> byte b \<Longrightarrow> scanString InString acc (p @ t) = scanString InString (rev p @ acc) t"
proof (induction p arbitrary: acc)
  case Nil
  show ?case by simp
next
  case (Cons b p)
  from Cons.prems have "0x80 \<le> byte b" by simp
  then have "b \<noteq> CHR 0x22" "b \<noteq> CHR 0x5C" "\<not> byte b < 0x20"
    by auto
  with Cons show ?case by simp
qed

lemma isCont_high: "isCont c \<Longrightarrow> 0x80 \<le> byte c"
  by (simp add: isCont_def)

lemma secondOk_high: "secondOk b c \<Longrightarrow> 0x80 \<le> byte c"
  by (simp add: secondOk_def isCont_def split: if_splits)

lemma runeSize_high:
  assumes "0 < runeSize (c # r)" and "0x80 \<le> byte c"
  shows "runeSize (c # r) - 1 \<le> length r \<and> (\<forall>b \<in> set (take (runeSize (c # r) - 1) r). 0x80 \<le> byte b)"
proof (cases r)
  case Nil
  with assms show ?thesis by (simp add: runeSize_def Let_def split: if_splits)
next
  case r1: (Cons c1 t1)
  show ?thesis
  proof (cases t1)
    case Nil
    with assms r1 show ?thesis
      by (auto simp: runeSize_def Let_def split: if_splits dest: isCont_high)
  next
    case r2: (Cons c2 t2)
    show ?thesis
    proof (cases t2)
      case Nil
      with assms r1 r2 show ?thesis
        by (auto simp: runeSize_def Let_def split: if_splits dest: isCont_high secondOk_high)
    next
      case (Cons c3 t3)
      with assms r1 r2 show ?thesis
        by (auto simp: runeSize_def Let_def split: if_splits dest: isCont_high secondOk_high)
    qed
  qed
qed

lemma getu4_shape:
  "getu4 x = Some v \<Longrightarrow> \<exists>y. x = CHR 0x5C # CHR ''u'' # y \<and> 4 \<le> length y"
  by (cases x; cases "tl x") (auto simp: getu4_def split: if_splits)

lemma unquote_low_surrogate:
  assumes "getu4 x = Some lo" and "0xDC00 \<le> lo" and "lo < 0xE000" and "unquote x \<noteq> None"
  shows "unquote (drop 6 x) \<noteq> None"
proof -
  from getu4_shape [OF assms(1)] obtain y where x: "x = CHR 0x5C # CHR ''u'' # y"
    by blast
  from assms(2) have "utf16Pair lo z = None" for z
    by (simp add: utf16Pair_def split: option.splits)
  with assms x show ?thesis
    by (auto split: option.splits if_splits)
qed

lemma simpleEscape_scanned:
  "c \<in> set ''bfnrt/'' \<or> c = CHR 0x5C \<or> c = CHR 0x22 \<Longrightarrow> simpleEscape c \<noteq> None \<and> c \<noteq> CHR ''u''"
  by (auto simp: simpleEscape_def)

lemma scanString_u:
  "scanString (InStringEscU n) acc s = Some (raw, rest) \<Longrightarrow> 0 < n \<Longrightarrow>
     \<exists>h t. s = h @ t \<and> length h = n \<and> list_all isHex h
       \<and> scanString InString (rev h @ acc) t = Some (raw, rest)"
proof (induction n arbitrary: acc s)
  case 0
  then show ?case by simp
next
  case (Suc m)
  from Suc.prems(1) obtain c cs where s: "s = c # cs" and hex: "isHex c"
    by (cases s) (auto split: if_splits)
  show ?case
  proof (cases "m = 0")
    case True
    with Suc.prems(1) s hex have "scanString InString (rev [c] @ acc) cs = Some (raw, rest)"
      by simp
    with s hex True show ?thesis
      by (intro exI [of _ "[c]"] exI [of _ cs]) simp
  next
    case False
    with Suc.prems(1) s hex have "scanString (InStringEscU m) (c # acc) cs = Some (raw, rest)"
      by simp
    from Suc.IH [OF this] False obtain h t where "cs = h @ t" "length h = m" "list_all isHex h"
      "scanString InString (rev h @ c # acc) t = Some (raw, rest)"
      by auto
    with s hex show ?thesis
      by (intro exI [of _ "c # h"] exI [of _ t]) simp
  qed
qed

lemma getu4_hex:
  "length h = 4 \<Longrightarrow> list_all isHex h \<Longrightarrow> \<exists>v. getu4 (CHR 0x5C # CHR ''u'' # h @ r) = Some v"
  by (simp add: getu4_def)

lemma scanString_unquote:
  "scanString InString acc s = Some (raw, rest) \<Longrightarrow> unquote (drop (length acc) raw) \<noteq> None"
proof (induction "length s" arbitrary: s acc rule: less_induct)
  case less
  note scan = less.prems
  show ?case
  proof (cases s)
    case Nil
    with scan show ?thesis by simp
  next
    case (Cons c cs)
    consider (quote) "c = CHR 0x22"
      | (esc) "c = CHR 0x5C"
      | (ctl) "c \<noteq> CHR 0x22" "c \<noteq> CHR 0x5C" "byte c < 0x20"
      | (plain) "c \<noteq> CHR 0x22" "c \<noteq> CHR 0x5C" "\<not> byte c < 0x20"
      by blast
    then show ?thesis
    proof cases
      case quote
      with scan Cons show ?thesis by auto
    next
      case ctl
      with scan Cons show ?thesis by simp
    next
      case esc
      with scan Cons have e: "scanString InStringEsc (c # acc) cs = Some (raw, rest)"
        by simp
      then obtain e cs' where cs: "cs = e # cs'"
        by (cases cs) auto
      show ?thesis
      proof (cases "e \<in> set ''bfnrt/'' \<or> e = CHR 0x5C \<or> e = CHR 0x22")
        case True
        with e cs have n: "scanString InString (e # c # acc) cs' = Some (raw, rest)"
          by simp
        from scanString_shape [OF n] obtain r where raw: "raw = rev acc @ c # e # r"
          by auto
        from less.hyps [OF _ n] Cons cs raw have "unquote r \<noteq> None"
          by simp
        with simpleEscape_scanned [OF True] raw esc show ?thesis
          by (auto split: option.splits)
      next
        case False
        with e cs have eu: "e = CHR ''u''"
          and u: "scanString (InStringEscU 4) (e # c # acc) cs' = Some (raw, rest)"
          by (simp_all split: if_splits)
        from scanString_u [OF u] obtain h t where ht: "cs' = h @ t" "length h = 4" "list_all isHex h"
          and n: "scanString InString (rev h @ e # c # acc) t = Some (raw, rest)"
          by auto
        from scanString_shape [OF n] obtain r where raw: "raw = rev acc @ c # e # h @ r"
          by auto
        from less.hyps [OF _ n] Cons cs ht raw have r: "unquote r \<noteq> None"
          by simp
        from getu4_hex [OF ht(2,3)] esc eu obtain v where v: "getu4 (c # e # h @ r) = Some v"
          by auto
        have pair: "unquote (drop 6 r) \<noteq> None" if "utf16Pair v (getu4 r) = Some dec" for dec
        proof -
          from that obtain lo where lo: "getu4 r = Some lo" "0xDC00 \<le> lo" "lo < 0xE000"
            by (auto simp: utf16Pair_def split: option.splits if_splits)
          show ?thesis by (rule unquote_low_surrogate [OF lo r])
        qed
        have "unquote (c # e # h @ r) \<noteq> None"
          using esc eu v r pair ht(2) by (auto split: option.splits)
        with raw show ?thesis by simp
      qed
    next
      case plain
      with scan Cons have n: "scanString InString (c # acc) cs = Some (raw, rest)"
        by simp
      from scanString_shape [OF n] obtain r where raw: "raw = rev acc @ c # r"
        and cs: "cs = r @ CHR 0x22 # rest"
        by auto
      from less.hyps [OF _ n] Cons raw have r: "unquote r \<noteq> None"
        by simp
      show ?thesis
      proof (cases "byte c < 0x80 \<or> runeSize (c # r) = 0")
        case True
        with plain r raw show ?thesis by auto
      next
        case False
        define k where "k = runeSize (c # r) - 1"
        from False runeSize_high [of c r] have k: "k \<le> length r"
          and high: "\<forall>b \<in> set (take k r). 0x80 \<le> byte b"
          by (simp_all add: k_def)
        have "cs = take k r @ (drop k r @ CHR 0x22 # rest)"
          using cs by simp
        with n scanString_high [OF high, of "c # acc" "drop k r @ CHR 0x22 # rest"]
        have m: "scanString InString (rev (take k r) @ c # acc) (drop k r @ CHR 0x22 # rest) =
            Some (raw, rest)"
          by simp
        have "length (drop k r @ CHR 0x22 # rest) < length s"
          using Cons cs by simp
        from less.hyps [OF this m] raw k have "unquote (drop k r) \<noteq> None"
          by simp
        with False plain raw show ?thesis
          by (auto simp: k_def)
      qed
    qed
  qed
qed

text \<open>The escapes and bytes the scanner lets through are the ones \<open>unquote\<close> decodes.\<close>

lemma scanned_string_unquotes:
  "scanString InString [] s = Some (raw, rest) \<Longrightarrow> \<exists>t. unquote raw = Some t"
  using scanString_unquote [of "[]" s raw rest] by auto

section \<open>Properties of the decimal format\<close>

text \<open>
  The verb \<^verbatim>\<open>%d\<close> writes the digits of the number: reading them back with
  \<^verbatim>\<open>strconv.ParseInt\<close> gives the number again.
\<close>

lemma digit_byte: "k < 10 \<Longrightarrow> byte (''0123456789'' ! k) = 48 + k"
proof -
  assume "k < 10"
  then have "k = 0 \<or> k = 1 \<or> k = 2 \<or> k = 3 \<or> k = 4 \<or> k = 5 \<or> k = 6 \<or> k = 7 \<or> k = 8 \<or> k = 9"
    by arith
  then show ?thesis
    by (elim disjE) simp_all
qed

lemma digitsVal_snoc: "digitsVal (xs @ [d]) = 10 * digitsVal xs + int (byte d - 48)"
  by (simp add: digitsVal_def)

lemma decimal_digits:
  "digitsVal (decimal n) = int n \<and> list_all isDigit (decimal n) \<and> decimal n \<noteq> []"
proof (induction n rule: decimal.induct)
  case (1 n)
  show ?case
  proof (cases "n < 10")
    case True
    then have "decimal n = [''0123456789'' ! n]"
      by (simp add: decimal.simps [of n])
    with True digit_byte [of n] show ?thesis
      by (simp add: digitsVal_def isDigit_def)
  next
    case False
    then have d: "decimal n = decimal (n div 10) @ [''0123456789'' ! (n mod 10)]"
      by (simp add: decimal.simps [of n])
    have "n mod 10 < 10" by simp
    from digit_byte [OF this] have b: "byte (''0123456789'' ! (n mod 10)) = 48 + n mod 10" .
    have "10 * int (n div 10) + int (n mod 10) = int n" and "n mod 10 \<le> 9"
      by presburger+
    with 1 [OF False] b show ?thesis
      unfolding d by (simp add: digitsVal_snoc isDigit_def)
  qed
qed

lemma fmt_d_parses:
  assumes "- (2 ^ 63) \<le> i" and "i < 2 ^ 63"
  shows "parseInt64 (fmt_d i) = Some i"
proof -
  obtain c cs where d: "decimal (nat \<bar>i\<bar>) = c # cs" and c: "isDigit c"
    using decimal_digits [of "nat \<bar>i\<bar>"] by (cases "decimal (nat \<bar>i\<bar>)") auto
  from c have nm: "c \<noteq> CHR ''-''"
    by (auto simp: isDigit_def)
  show ?thesis
  proof (cases "i < 0")
    case True
    then have "fmt_d i = CHR ''-'' # decimal (nat \<bar>i\<bar>)"
      by (simp add: fmt_d_def)
    with True assms decimal_digits [of "nat \<bar>i\<bar>"] show ?thesis
      by (simp add: parseInt64_def Let_def)
  next
    case False
    then have "fmt_d i = decimal (nat \<bar>i\<bar>)"
      by (simp add: fmt_d_def)
    with False assms decimal_digits [of "nat \<bar>i\<bar>"] d nm show ?thesis
      by (simp add: parseInt64_def Let_def)
  qed
qed

section \<open>Properties of Do\<close>

lemmas request_defs = Do_def NewRequest_def validMethod_def isTokenChar_def isDigit_def
  setAuth_def SetBasicAuth_def Header_Set_def Header_Add_def basicAuth_def encodeStd_def
  BitbucketEndpoint_def SetAuthHeader_def Token_Type_def equalFold_def Let_def

lemmas example_defs = acceptURL_def answers_def tokenAnswer_def basicClient_def fresh_def
  reply_def

lemma setAuth_frame:
  "setAuth c req0 w = Inr (req, w1) \<Longrightarrow> sent w1 = sent w \<and> client w1 = client w"
  "setAuth c req0 w = Inl (e, w1) \<Longrightarrow> sent w1 = sent w \<and> client w1 = client w"
  by (auto simp: setAuth_def Let_def split: option.splits sum.splits)

text \<open>
  When a call has handed a request to the HTTP client, what it returns is \<open>respond\<close> of
  the client's answer to that request.
\<close>

lemma Do_answer:
  assumes sent: "sent (snd (Do urlParse method endpoint payload addJsonHeader w)) = sent w @ [req]"
    and hc: "HTTPClient (client w) = Some httpClient"
    and ans: "httpClient (length (sent w)) req = (resp, err)"
  shows "fst (Do urlParse method endpoint payload addJsonHeader w) = respond endpoint resp err"
proof (cases "NewRequest urlParse method (BitbucketEndpoint @ endpoint) payload")
  case (Inl e)
  with sent show ?thesis by (simp add: Do_def)
next
  case (Inr req0)
  show ?thesis
  proof (cases "setAuth (client w) req0 w")
    case (Inl a)
    obtain e w1 where a: "a = (e, w1)" by (cases a)
    with Inl have "sent w1 = sent w" by (simp add: setAuth_frame)
    with sent Inr Inl a show ?thesis by (simp add: Do_def)
  next
    case r: (Inr b)
    obtain req3 w1 where b: "b = (req3, w1)" by (cases b)
    with r have w1: "sent w1 = sent w" by (simp add: setAuth_frame)
    define rq where "rq = (if payload \<noteq> None \<and> addJsonHeader
        then Header_Add ''Content-Type'' ''application/json'' req3 else req3)\<lparr>Close := True\<rparr>"
    have D: "Do urlParse method endpoint payload addJsonHeader w =
        (case httpClient (length (sent w)) rq of (resp, err) \<Rightarrow>
           (respond endpoint resp err, w1\<lparr>sent := sent w @ [rq]\<rparr>))"
      using Inr r b hc w1 by (simp add: Do_def Let_def rq_def)
    with sent have "rq = req" by (simp split: prod.splits)
    with D ans show ?thesis by simp
  qed
qed

text \<open>The example call: \<^verbatim>\<open>GET 2.0/user\<close> with basic authentication.\<close>

lemma Do_example:
  "Do acceptURL ''GET'' ''2.0/user'' None True (fresh (basicClient (answers resp err))) =
     (respond ''2.0/user'' resp err,
      \<lparr>client = basicClient (answers resp err),
       sent = [\<lparr>Method = ''GET'', URL = ''https://api.bitbucket.org/2.0/user'',
                Header = [''Authorization'' \<mapsto> [''Basic dTpw'']], Body = None, Close = True\<rparr>],
       tokenCalls = 0\<rparr>)"
  by (simp add: request_defs example_defs)

lemma Do_example_sent:
  "sent (snd (Do acceptURL ''GET'' ''2.0/user'' None True (fresh (basicClient (answers resp err))))) =
     sent (fresh (basicClient (answers resp err))) @
       [\<lparr>Method = ''GET'', URL = ''https://api.bitbucket.org/2.0/user'',
         Header = [''Authorization'' \<mapsto> [''Basic dTpw'']], Body = None, Close = True\<rparr>]"
  by (simp add: Do_example) (simp add: fresh_def)

text \<open>
  C6. When the HTTP client answers a request with a response whose status code lies in
  [200,299] and with no error, \<^verbatim>\<open>Do\<close> returns that response and a nil error, whatever the
  body of the response is (the body is not read at all).
\<close>

theorem Do_success:
  assumes "sent (snd (Do urlParse method endpoint payload addJsonHeader w)) = sent w @ [req]"
    and "HTTPClient (client w) = Some httpClient"
    and "httpClient (length (sent w)) req = (Some r, None)"
    and "200 \<le> RespStatusCode r" and "RespStatusCode r \<le> 299"
  shows "fst (Do urlParse method endpoint payload addJsonHeader w) = Return (Some r) None"
  using Do_answer [OF assms(1,2,3)] assms(4,5) by (simp add: respond_def)

theorem Do_success_witness:
  "fst (Do acceptURL ''GET'' ''2.0/user'' None True
         (fresh (basicClient (answers (Some (reply 204 ''not JSON'')) None)))) =
     Return (Some (reply 204 ''not JSON'')) None"
proof -
  have "HTTPClient (client (fresh (basicClient (answers (Some (reply 204 ''not JSON'')) None)))) =
      Some (answers (Some (reply 204 ''not JSON'')) None)"
    by (simp add: fresh_def basicClient_def)
  moreover have "(200::int) \<le> RespStatusCode (reply 204 ''not JSON'')"
    and "RespStatusCode (reply 204 ''not JSON'') \<le> 299"
    by (simp_all add: reply_def)
  ultimately show ?thesis
    using Do_success [OF Do_example_sent, of "Some (reply 204 ''not JSON'')" None
        "answers (Some (reply 204 ''not JSON'')) None" "reply 204 ''not JSON''"]
    by (simp add: answers_def)
qed

text \<open>
  C10. When the HTTP client answers with a response whose status code is below 200 or at
  least 400 and reading its body fails, \<^verbatim>\<open>Do\<close> returns a nil response and the read
  error: the response is not handed back on this path.
\<close>

theorem Do_body_read_error:
  assumes "sent (snd (Do urlParse method endpoint payload addJsonHeader w)) = sent w @ [req]"
    and "HTTPClient (client w) = Some httpClient"
    and "httpClient (length (sent w)) req = (Some r, err)"
    and "RespStatusCode r \<ge> 400 \<or> RespStatusCode r < 200"
    and "RespBody r = Inl rerr"
  shows "fst (Do urlParse method endpoint payload addJsonHeader w) =
     Return None (Some (ReadAllError rerr))"
  using Do_answer [OF assms(1,2,3)] assms(4,5) by (simp add: respond_def)

theorem Do_body_read_error_witness:
  "fst (Do acceptURL ''GET'' ''2.0/user'' None True
         (fresh (basicClient (answers
            (Some \<lparr>RespStatusCode = 502, RespBody = Inl ''unexpected EOF''\<rparr>) None)))) =
     Return None (Some (ReadAllError ''unexpected EOF''))"
proof -
  let ?r = "\<lparr>RespStatusCode = 502, RespBody = Inl ''unexpected EOF''\<rparr>"
  have "HTTPClient (client (fresh (basicClient (answers (Some ?r) None)))) =
      Some (answers (Some ?r) None)"
    by (simp add: fresh_def basicClient_def)
  moreover have "RespStatusCode ?r \<ge> 400 \<or> RespStatusCode ?r < 200"
    and "RespBody ?r = Inl ''unexpected EOF''"
    by simp_all
  ultimately show ?thesis
    using Do_body_read_error [OF Do_example_sent, of "Some ?r" None "answers (Some ?r) None" ?r None
        "''unexpected EOF''"]
    by (simp add: answers_def)
qed

text \<open>
  C2. The claim is that an error of the HTTP client is returned to the caller at once.
  The code does not test that error: when the HTTP client answers a request with a nil
  response and an error, as it does for a network failure, \<^verbatim>\<open>Do\<close> reads the status
  code of the nil response and panics.
\<close>

theorem Do_transport_error_panics:
  assumes "sent (snd (Do urlParse method endpoint payload addJsonHeader w)) = sent w @ [req]"
    and "HTTPClient (client w) = Some httpClient"
    and "httpClient (length (sent w)) req = (None, Some terr)"
  shows "fst (Do urlParse method endpoint payload addJsonHeader w) = Panic"
  using Do_answer [OF assms] by (simp add: respond_def)

theorem Do_transport_error_panics_witness:
  "fst (Do acceptURL ''GET'' ''2.0/user'' None True
         (fresh (basicClient (answers None (Some ''dial tcp: i/o timeout''))))) = Panic"
proof -
  have "HTTPClient (client (fresh (basicClient (answers None (Some ''dial tcp: i/o timeout''))))) =
      Some (answers None (Some ''dial tcp: i/o timeout''))"
    by (simp add: fresh_def basicClient_def)
  then show ?thesis
    using Do_transport_error_panics [OF Do_example_sent, of None "Some ''dial tcp: i/o timeout''"
        "answers None (Some ''dial tcp: i/o timeout'')" "''dial tcp: i/o timeout''"]
    by (simp add: answers_def)
qed

text \<open>What a call changes in the state, path by path.\<close>

lemma Do_paths:
  "(\<exists>e. NewRequest urlParse method (BitbucketEndpoint @ endpoint) payload = Inl e
      \<and> Do urlParse method endpoint payload addJsonHeader w = (Return None (Some (NewRequestError e)), w))
   \<or> (\<exists>req0 e w1. NewRequest urlParse method (BitbucketEndpoint @ endpoint) payload = Inr req0
      \<and> setAuth (client w) req0 w = Inl (e, w1)
      \<and> Do urlParse method endpoint payload addJsonHeader w = (Return None (Some (TokenError e)), w1))
   \<or> (\<exists>req0 req3 w1. NewRequest urlParse method (BitbucketEndpoint @ endpoint) payload = Inr req0
      \<and> setAuth (client w) req0 w = Inr (req3, w1) \<and> HTTPClient (client w) = None
      \<and> Do urlParse method endpoint payload addJsonHeader w = (Panic, w1))
   \<or> (\<exists>req0 req3 w1 res. NewRequest urlParse method (BitbucketEndpoint @ endpoint) payload = Inr req0
      \<and> setAuth (client w) req0 w = Inr (req3, w1)
      \<and> Do urlParse method endpoint payload addJsonHeader w =
          (res, w1\<lparr>sent := sent w1 @
             [(if payload \<noteq> None \<and> addJsonHeader
               then Header_Add ''Content-Type'' ''application/json'' req3 else req3)\<lparr>Close := True\<rparr>]\<rparr>))"
proof (cases "NewRequest urlParse method (BitbucketEndpoint @ endpoint) payload")
  case (Inl e)
  then show ?thesis by (simp add: Do_def)
next
  case (Inr req0)
  show ?thesis
  proof (cases "setAuth (client w) req0 w")
    case (Inl a)
    then show ?thesis using Inr by (cases a) (simp add: Do_def)
  next
    case r: (Inr b)
    obtain req3 w1 where b: "b = (req3, w1)" by (cases b)
    show ?thesis
    proof (cases "HTTPClient (client w)")
      case None
      then show ?thesis using Inr r b by (simp add: Do_def Let_def)
    next
      case (Some h)
      then show ?thesis using Inr r b by (simp add: Do_def Let_def split: prod.splits)
    qed
  qed
qed

lemma Do_client: "client (snd (Do urlParse method endpoint payload addJsonHeader w)) = client w"
  using Do_paths [of urlParse "method" endpoint payload addJsonHeader w]
  by (auto dest: setAuth_frame)

lemma NewRequest_fields:
  "NewRequest urlParse method url body = Inr req0 \<Longrightarrow>
     Body req0 = body \<and> Header req0 = Map.empty \<and> urlParse url = Inr (URL req0)"
  by (auto simp: NewRequest_def Let_def split: if_splits sum.splits)

lemma setAuth_fields:
  "setAuth c req0 w = Inr (req, w1) \<Longrightarrow>
     Body req = Body req0 \<and> URL req = URL req0 \<and> Method req = Method req0
     \<and> (\<forall>k. k \<noteq> ''Authorization'' \<longrightarrow> Header req k = Header req0 k)"
  by (auto simp: setAuth_def Let_def SetBasicAuth_def SetAuthHeader_def Header_Set_def Header_Add_def
      split: option.splits sum.splits if_splits)

lemma Do_sent_cases:
  "sent (snd (Do urlParse method endpoint payload addJsonHeader w)) = sent w
   \<or> (\<exists>req0 req3 w1. NewRequest urlParse method (BitbucketEndpoint @ endpoint) payload = Inr req0
        \<and> setAuth (client w) req0 w = Inr (req3, w1)
        \<and> sent (snd (Do urlParse method endpoint payload addJsonHeader w)) =
            sent w @ [(if payload \<noteq> None \<and> addJsonHeader
               then Header_Add ''Content-Type'' ''application/json'' req3 else req3)\<lparr>Close := True\<rparr>])"
  using Do_paths [of urlParse "method" endpoint payload addJsonHeader w]
proof (elim disjE exE conjE)
  fix req0 req3 w1 res
  assume "NewRequest urlParse method (BitbucketEndpoint @ endpoint) payload = Inr req0"
    and a: "setAuth (client w) req0 w = Inr (req3, w1)"
    and "Do urlParse method endpoint payload addJsonHeader w =
          (res, w1\<lparr>sent := sent w1 @
             [(if payload \<noteq> None \<and> addJsonHeader
               then Header_Add ''Content-Type'' ''application/json'' req3 else req3)\<lparr>Close := True\<rparr>]\<rparr>)"
  then show ?thesis using setAuth_frame(1) [OF a] by simp
qed (auto dest: setAuth_frame)

text \<open>Every request a call hands to the HTTP client, in terms of the arguments.\<close>

lemma Do_outbound:
  assumes "req \<in> set (drop (length (sent w)) (sent (snd (Do urlParse method endpoint payload addJsonHeader w))))"
  shows "Body req = payload \<and> urlParse (BitbucketEndpoint @ endpoint) = Inr (URL req) \<and> Close req
     \<and> Header req ''Content-Type'' =
         (if payload \<noteq> None \<and> addJsonHeader then Some [''application/json''] else None)"
proof -
  from Do_sent_cases [of urlParse "method" endpoint payload addJsonHeader w] assms
  obtain req0 req3 w1 where n: "NewRequest urlParse method (BitbucketEndpoint @ endpoint) payload = Inr req0"
    and a: "setAuth (client w) req0 w = Inr (req3, w1)"
    and r: "req = (if payload \<noteq> None \<and> addJsonHeader
               then Header_Add ''Content-Type'' ''application/json'' req3 else req3)\<lparr>Close := True\<rparr>"
    by auto
  from NewRequest_fields [OF n] setAuth_fields [OF a]
  have "Body req3 = payload" "urlParse (BitbucketEndpoint @ endpoint) = Inr (URL req3)"
    "Header req3 ''Content-Type'' = None"
    by simp_all
  with r show ?thesis by (simp add: Header_Add_def)
qed

text \<open>
  C9. A call leaves the client as it found it: the fields \<^verbatim>\<open>Username\<close>, \<^verbatim>\<open>Password\<close>,
  \<^verbatim>\<open>OAuthToken\<close>, \<^verbatim>\<open>OAuthTokenSource\<close> and \<^verbatim>\<open>HTTPClient\<close> after the call are those
  before it, on every path, a panic included.
\<close>

theorem Do_client_unchanged:
  "Username (client (snd (Do urlParse method endpoint payload addJsonHeader w))) = Username (client w)
   \<and> Password (client (snd (Do urlParse method endpoint payload addJsonHeader w))) = Password (client w)
   \<and> OAuthToken (client (snd (Do urlParse method endpoint payload addJsonHeader w))) = OAuthToken (client w)
   \<and> OAuthTokenSource (client (snd (Do urlParse method endpoint payload addJsonHeader w))) =
       OAuthTokenSource (client w)
   \<and> HTTPClient (client (snd (Do urlParse method endpoint payload addJsonHeader w))) = HTTPClient (client w)"
  by (simp add: Do_client)

theorem Do_client_unchanged_witness:
  "Username (client (snd (Do acceptURL ''PUT'' ''2.0/user'' (Some ''{}'') True
       (fresh (basicClient (answers None None)))))) = Some ''u''
   \<and> HTTPClient (client (snd (Do acceptURL ''PUT'' ''2.0/user'' (Some ''{}'') True
       (fresh (basicClient (answers None None)))))) = Some (answers None None)"
  using Do_client_unchanged [of acceptURL "''PUT''" "''2.0/user''" "Some ''{}''" True
      "fresh (basicClient (answers None None))"]
  by (simp add: fresh_def basicClient_def)

text \<open>
  C5. When a token source is configured and its \<^verbatim>\<open>Token()\<close> fails, the call hands no
  request to the HTTP client. When the request can be built, so that the token source is
  asked, the call returns a nil response and the error of the token source, and all it
  has done is to ask for that one token.
\<close>

theorem Do_token_error:
  assumes "OAuthTokenSource (client w) = Some ts"
    and "ts (tokenCalls w) = Inl terr"
  shows "sent (snd (Do urlParse method endpoint payload addJsonHeader w)) = sent w
     \<and> (\<forall>req0. NewRequest urlParse method (BitbucketEndpoint @ endpoint) payload = Inr req0 \<longrightarrow>
           Do urlParse method endpoint payload addJsonHeader w =
             (Return None (Some (TokenError terr)), w\<lparr>tokenCalls := Suc (tokenCalls w)\<rparr>))"
proof (cases "NewRequest urlParse method (BitbucketEndpoint @ endpoint) payload")
  case (Inl e)
  then show ?thesis by (simp add: Do_def)
next
  case (Inr req0)
  from assms have "setAuth (client w) req0 w = Inl (terr, w\<lparr>tokenCalls := Suc (tokenCalls w)\<rparr>)"
    by (simp add: setAuth_def Let_def)
  with Inr show ?thesis by (simp add: Do_def)
qed

theorem Do_token_error_witness:
  "sent (snd (Do acceptURL ''GET'' ''2.0/user'' None True
       (fresh ((basicClient (answers None None))
          \<lparr>OAuthTokenSource := Some (tokenAnswer (Inl ''oauth2: cannot fetch token''))\<rparr>)))) = []
   \<and> fst (Do acceptURL ''GET'' ''2.0/user'' None True
       (fresh ((basicClient (answers None None))
          \<lparr>OAuthTokenSource := Some (tokenAnswer (Inl ''oauth2: cannot fetch token''))\<rparr>))) =
      Return None (Some (TokenError ''oauth2: cannot fetch token''))
   \<and> tokenCalls (snd (Do acceptURL ''GET'' ''2.0/user'' None True
       (fresh ((basicClient (answers None None))
          \<lparr>OAuthTokenSource := Some (tokenAnswer (Inl ''oauth2: cannot fetch token''))\<rparr>)))) = 1"
proof -
  let ?w = "fresh ((basicClient (answers None None))
      \<lparr>OAuthTokenSource := Some (tokenAnswer (Inl ''oauth2: cannot fetch token''))\<rparr>) :: string world"
  have 1: "OAuthTokenSource (client ?w) = Some (tokenAnswer (Inl ''oauth2: cannot fetch token''))"
    by (simp add: fresh_def basicClient_def)
  have 2: "tokenAnswer (Inl ''oauth2: cannot fetch token'') (tokenCalls ?w) =
      Inl ''oauth2: cannot fetch token''"
    by (simp add: tokenAnswer_def)
  have 3: "NewRequest acceptURL ''GET'' (BitbucketEndpoint @ ''2.0/user'') None =
      Inr \<lparr>Method = ''GET'', URL = ''https://api.bitbucket.org/2.0/user'', Header = Map.empty,
           Body = None, Close = False\<rparr>"
    by (simp add: NewRequest_def validMethod_def isTokenChar_def isDigit_def acceptURL_def
        BitbucketEndpoint_def)
  from Do_token_error [OF 1 2, of acceptURL "''GET''" "''2.0/user''" None True] 3
  have "Do acceptURL ''GET'' ''2.0/user'' None True ?w =
      (Return None (Some (TokenError ''oauth2: cannot fetch token'')),
       ?w\<lparr>tokenCalls := Suc (tokenCalls ?w)\<rparr>)"
    by simp
  then show ?thesis
    by (simp add: fresh_def)
qed

text \<open>
  C8. Each helper is \<^verbatim>\<open>Do\<close> at fixed arguments. No request that \<^verbatim>\<open>Get\<close>, \<^verbatim>\<open>PutOnly\<close>
  or \<^verbatim>\<open>Delete\<close> hands to the HTTP client has a body; none that \<^verbatim>\<open>PostNonJson\<close> hands
  over has a \<^verbatim>\<open>Content-Type\<close> header, whatever the payload; every one that \<^verbatim>\<open>Post\<close> or
  \<^verbatim>\<open>Put\<close> hands over with a payload has the header \<^verbatim>\<open>Content-Type: application/json\<close>.
\<close>

theorem helpers_delegate:
  "Get urlParse endpoint w = Do urlParse ''GET'' endpoint None True w
   \<and> Post urlParse endpoint jsonpayload w = Do urlParse ''POST'' endpoint jsonpayload True w
   \<and> PostNonJson urlParse endpoint jsonpayload w = Do urlParse ''POST'' endpoint jsonpayload False w
   \<and> Put urlParse endpoint jsonpayload w = Do urlParse ''PUT'' endpoint jsonpayload True w
   \<and> PutOnly urlParse endpoint w = Do urlParse ''PUT'' endpoint None True w
   \<and> Delete urlParse endpoint w = Do urlParse ''DELETE'' endpoint None True w
   \<and> (\<forall>req \<in> set (drop (length (sent w)) (sent (snd (Get urlParse endpoint w)))). Body req = None)
   \<and> (\<forall>req \<in> set (drop (length (sent w)) (sent (snd (PutOnly urlParse endpoint w)))). Body req = None)
   \<and> (\<forall>req \<in> set (drop (length (sent w)) (sent (snd (Delete urlParse endpoint w)))). Body req = None)
   \<and> (\<forall>req \<in> set (drop (length (sent w)) (sent (snd (PostNonJson urlParse endpoint jsonpayload w)))).
         Header req ''Content-Type'' = None)
   \<and> (\<forall>req \<in> set (drop (length (sent w)) (sent (snd (Post urlParse endpoint (Some body) w)))).
         Header req ''Content-Type'' = Some [''application/json''] \<and> Body req = Some body)
   \<and> (\<forall>req \<in> set (drop (length (sent w)) (sent (snd (Put urlParse endpoint (Some body) w)))).
         Header req ''Content-Type'' = Some [''application/json''] \<and> Body req = Some body)"
  unfolding Get_def Post_def PostNonJson_def Put_def PutOnly_def Delete_def
  by (auto dest: Do_outbound)

theorem helpers_delegate_witness:
  "map Body (sent (snd (Delete acceptURL ''2.0/repositories/a/b'' (fresh (basicClient (answers None None)))))) = [None]
   \<and> map (\<lambda>req. Header req ''Content-Type'')
        (sent (snd (PostNonJson acceptURL ''2.0/x'' (Some ''a=b'') (fresh (basicClient (answers None None)))))) = [None]
   \<and> map (\<lambda>req. Header req ''Content-Type'')
        (sent (snd (Post acceptURL ''2.0/x'' (Some ''{}'') (fresh (basicClient (answers None None)))))) =
       [Some [''application/json'']]"
proof -
  let ?w = "fresh (basicClient (answers None None))"
  note h = helpers_delegate [of acceptURL _ ?w]
  have d: "length (sent (snd (Delete acceptURL ''2.0/repositories/a/b'' ?w))) = 1"
    and n: "length (sent (snd (PostNonJson acceptURL ''2.0/x'' (Some ''a=b'') ?w))) = 1"
    and p: "length (sent (snd (Post acceptURL ''2.0/x'' (Some ''{}'') ?w))) = 1"
    by (simp_all add: Delete_def PostNonJson_def Post_def request_defs example_defs)
  have w0: "drop (length (sent ?w)) xs = xs" for xs :: "string Request list"
    by (simp add: fresh_def)
  have one: "length xs = 1 \<Longrightarrow> \<forall>x \<in> set xs. f x = v \<Longrightarrow> map f xs = [v]"
    for xs :: "string Request list" and f :: "string Request \<Rightarrow> 'b" and v
    by (cases xs) auto
  have "map Body (sent (snd (Delete acceptURL ''2.0/repositories/a/b'' ?w))) = [None]"
    using h [of "''2.0/repositories/a/b''"] d by (intro one) (simp_all add: w0)
  moreover have "map (\<lambda>req. Header req ''Content-Type'')
      (sent (snd (PostNonJson acceptURL ''2.0/x'' (Some ''a=b'') ?w))) = [None]"
    using h [of "''2.0/x''" "Some ''a=b''"] n by (intro one) (simp_all add: w0)
  moreover have "map (\<lambda>req. Header req ''Content-Type'')
      (sent (snd (Post acceptURL ''2.0/x'' (Some ''{}'') ?w))) = [Some [''application/json'']]"
    using h [of "''2.0/x''" _ "''{}''"] p by (intro one) (simp_all add: w0)
  ultimately show ?thesis by simp
qed

lemma setAuth_authorization:
  assumes "setAuth c req0 w = Inr (req3, w1)" and "Header req0 ''Authorization'' = None"
  shows "(\<forall>ts. OAuthTokenSource c = Some ts \<longrightarrow>
            (\<exists>token. ts (tokenCalls w) = Inr token
               \<and> Header req3 ''Authorization'' = Some [Token_Type token @ '' '' @ AccessToken token]))
     \<and> (OAuthTokenSource c = None \<longrightarrow>
          Header req3 ''Authorization'' =
            (let basic = (if Username c \<noteq> None \<and> Password c \<noteq> None
                          then [''Basic '' @ basicAuth (the (Username c)) (the (Password c))] else [])
             in case OAuthToken c of
                  Some t \<Rightarrow> Some (basic @ [''Bearer '' @ t])
                | None \<Rightarrow> if basic = [] then None else Some basic))"
  using assms
  by (auto simp: setAuth_def Let_def SetBasicAuth_def SetAuthHeader_def Header_Set_def Header_Add_def
      split: option.splits sum.splits if_splits)

text \<open>
  C3, as the code has it. The mechanisms configured are all applied, in the order basic
  authentication, static token, token source. Basic authentication and the token of
  the token source set the \<^verbatim>\<open>Authorization\<close> header, replacing its values; the static
  token is added to it. So a request handed to the HTTP client carries only the value of
  the token source when one is configured; without one, the \<^verbatim>\<open>Basic\<close> value followed by
  the \<^verbatim>\<open>Bearer\<close> value when both are configured, and else the value of the one that is.
\<close>

theorem Do_authorization:
  assumes "req \<in> set (drop (length (sent w)) (sent (snd (Do urlParse method endpoint payload addJsonHeader w))))"
  shows "(\<forall>ts. OAuthTokenSource (client w) = Some ts \<longrightarrow>
            (\<exists>token. ts (tokenCalls w) = Inr token
               \<and> Header req ''Authorization'' = Some [Token_Type token @ '' '' @ AccessToken token]))
     \<and> (OAuthTokenSource (client w) = None \<longrightarrow>
          Header req ''Authorization'' =
            (let basic = (if Username (client w) \<noteq> None \<and> Password (client w) \<noteq> None
                          then [''Basic '' @ basicAuth (the (Username (client w))) (the (Password (client w)))]
                          else [])
             in case OAuthToken (client w) of
                  Some t \<Rightarrow> Some (basic @ [''Bearer '' @ t])
                | None \<Rightarrow> if basic = [] then None else Some basic))"
proof -
  from Do_sent_cases [of urlParse "method" endpoint payload addJsonHeader w] assms
  obtain req0 req3 w1 where n: "NewRequest urlParse method (BitbucketEndpoint @ endpoint) payload = Inr req0"
    and a: "setAuth (client w) req0 w = Inr (req3, w1)"
    and r: "req = (if payload \<noteq> None \<and> addJsonHeader
               then Header_Add ''Content-Type'' ''application/json'' req3 else req3)\<lparr>Close := True\<rparr>"
    by auto
  from r have h: "Header req ''Authorization'' = Header req3 ''Authorization''"
    by (simp add: Header_Add_def)
  from NewRequest_fields [OF n] have "Header req0 ''Authorization'' = None"
    by simp
  from setAuth_authorization [OF a this] show ?thesis
    unfolding h .
qed

theorem Do_authorization_witness:
  "map (\<lambda>req. Header req ''Authorization'')
     (sent (snd (Do acceptURL ''GET'' ''2.0/user'' None True
        (fresh ((basicClient (answers None None))
           \<lparr>OAuthToken := Some ''tok'',
            OAuthTokenSource := Some (tokenAnswer (Inr \<lparr>AccessToken = ''abc'', TokenType = ''bearer''\<rparr>))\<rparr>))))) =
   [Some [''Bearer abc'']]"
proof -
  let ?ts = "tokenAnswer (Inr \<lparr>AccessToken = ''abc'', TokenType = ''bearer''\<rparr>)"
  let ?w = "fresh ((basicClient (answers None None))\<lparr>OAuthToken := Some ''tok'', OAuthTokenSource := Some ?ts\<rparr>)"
  let ?D = "Do acceptURL ''GET'' ''2.0/user'' None True ?w"
  have len: "length (sent (snd ?D)) = 1"
    by (simp add: request_defs example_defs)
  then obtain req where s: "sent (snd ?D) = [req]"
    by (cases "sent (snd ?D)") auto
  then have "req \<in> set (drop (length (sent ?w)) (sent (snd ?D)))"
    by (simp add: fresh_def)
  from Do_authorization [OF this]
  have "\<exists>token. ?ts (tokenCalls ?w) = Inr token
      \<and> Header req ''Authorization'' = Some [Token_Type token @ '' '' @ AccessToken token]"
    by (simp add: fresh_def basicClient_def)
  then have "Header req ''Authorization'' = Some [''Bearer abc'']"
    by (auto simp: tokenAnswer_def Token_Type_def equalFold_def)
  with s show ?thesis by simp
qed

text \<open>
  C3, as the claim states it, fails: with basic authentication and a static token and no
  token source, the request carries two \<^verbatim>\<open>Authorization\<close> values, the \<^verbatim>\<open>Basic\<close> one
  still first.
\<close>

theorem Do_authorization_counterexample:
  "map (\<lambda>req. Header req ''Authorization'')
     (sent (snd (Do acceptURL ''GET'' ''2.0/user'' None True
        (fresh ((basicClient (answers None None))\<lparr>OAuthToken := Some ''tok''\<rparr>))))) =
   [Some [''Basic dTpw'', ''Bearer tok'']]"
  by (simp add: request_defs example_defs)

lemma Unmarshal_nope:
  \<open>json_Unmarshal ''{"error":{"message":"nope"}}''
     \<lparr>APIError = \<lparr>Message = []\<rparr>, Type = [], StatusCode = n, Endpoint = p\<rparr> =
   (None, \<lparr>APIError = \<lparr>Message = ''nope''\<rparr>, Type = [], StatusCode = n, Endpoint = p\<rparr>)\<close>
  by (simp add: json_Unmarshal_def checkValid_def isSpace_def punct_def isDigit_def keyword_def
      parse_def step_def beginValue_def beginKey_def endValue_def pushValue_def closeFrame_def
      isArrayFrame_def isObjectFrame_def maxNestingDepth_def decodeError_def storeErrorMember_def
      storeBody_def storeBodyMember_def storeString_def equalFold_def)

lemma fmt_d_404: "fmt_d 404 = ''404''"
  by (simp add: fmt_d_def decimal.simps [of 404] decimal.simps [of 40] decimal.simps [of 4])

lemma fmt_d_500: "fmt_d 500 = ''500''"
  by (simp add: fmt_d_def decimal.simps [of 500] decimal.simps [of 50] decimal.simps [of 5])

text \<open>
  What \<^verbatim>\<open>%d\<close> writes for a number that is not negative: its digits, with their value, and
  no zero in front.
\<close>

lemma fmt_d_digits:
  assumes "0 \<le> i"
  shows "fmt_d i \<noteq> [] \<and> list_all (\<lambda>c. 48 \<le> byte c \<and> byte c \<le> 57) (fmt_d i)
     \<and> foldl (\<lambda>n c. 10 * n + int (byte c - 48)) 0 (fmt_d i) = i
     \<and> (hd (fmt_d i) = CHR ''0'' \<longrightarrow> i = 0 \<and> length (fmt_d i) = 1)"
proof -
  from assms have f: "fmt_d i = decimal (nat i)"
    by (simp add: fmt_d_def)
  have z: "hd (decimal n) = CHR ''0'' \<Longrightarrow> n = 0" for n
  proof (induction n rule: decimal.induct)
    case (1 n)
    show ?case
    proof (cases "n < 10")
      case True
      with "1.prems" digit_byte [of n] show ?thesis
        by (simp add: decimal.simps [of n])
    next
      case False
      with decimal_digits [of "n div 10"] "1.prems" have "hd (decimal (n div 10)) = CHR ''0''"
        by (simp add: decimal.simps [of n])
      with "1.IH" [OF False] False show ?thesis
        by simp
    qed
  qed
  have d0: "decimal 0 = ''0''"
    by (simp add: decimal.simps [of 0])
  have lead: "hd (fmt_d i) = CHR ''0'' \<longrightarrow> i = 0 \<and> length (fmt_d i) = 1"
  proof
    assume "hd (fmt_d i) = CHR ''0''"
    with z [of "nat i"] assms have "i = 0"
      unfolding f by simp
    with d0 show "i = 0 \<and> length (fmt_d i) = 1"
      unfolding f by simp
  qed
  have digits: "list_all (\<lambda>c. 48 \<le> byte c \<and> byte c \<le> 57) (fmt_d i)"
    using decimal_digits [of "nat i"] unfolding f by (simp add: list_all_iff isDigit_def)
  have val: "foldl (\<lambda>n c. 10 * n + int (byte c - 48)) 0 (fmt_d i) = i"
    using decimal_digits [of "nat i"] assms unfolding f by (simp add: digitsVal_def)
  have ne: "fmt_d i \<noteq> []"
    using decimal_digits [of "nat i"] unfolding f by simp
  from ne digits val lead show ?thesis
    by blast
qed

text \<open>
  C7. The string of an API error is \<^verbatim>\<open>API Error: \<close>, the status code in decimal, the
  endpoint and the message, separated by single spaces; the status code in decimal is
  its digits without a zero in front, after a minus sign when it is negative. A response
  with status 404 and the body \<^verbatim>\<open>{"error":{"message":"nope"}}\<close> to a request for
  \<open>endpoint\<close> gives the API error with message \<^verbatim>\<open>nope\<close>, whose string is
  \<^verbatim>\<open>API Error: 404 \<close>, the endpoint, and \<^verbatim>\<open> nope\<close>.
\<close>

theorem Error_format:
  assumes \<open>sent (snd (Do urlParse method endpoint payload addJsonHeader w)) = sent w @ [req]\<close>
    and \<open>HTTPClient (client w) = Some httpClient\<close>
    and \<open>httpClient (length (sent w)) req = (Some r, err)\<close>
    and \<open>RespStatusCode r = 404\<close>
    and \<open>RespBody r = Inr ''{"error":{"message":"nope"}}''\<close>
  shows \<open>fst (Do urlParse method endpoint payload addJsonHeader w) =
       Return (Some r) (Some (BitbucketError
         \<lparr>APIError = \<lparr>Message = ''nope''\<rparr>, Type = [], StatusCode = 404, Endpoint = endpoint\<rparr>))
     \<and> Error_Error \<lparr>APIError = \<lparr>Message = ''nope''\<rparr>, Type = [], StatusCode = 404, Endpoint = endpoint\<rparr> =
         ''API Error: 404 '' @ endpoint @ '' nope''
     \<and> (\<forall>e. Error_Error e =
           ''API Error: '' @ fmt_d (StatusCode e) @ '' '' @ Endpoint e @ '' '' @ Message (APIError e))
     \<and> (\<forall>i. 0 \<le> i \<longrightarrow>
           fmt_d i \<noteq> [] \<and> list_all (\<lambda>c. 48 \<le> byte c \<and> byte c \<le> 57) (fmt_d i)
           \<and> foldl (\<lambda>n c. 10 * n + int (byte c - 48)) 0 (fmt_d i) = i
           \<and> (hd (fmt_d i) = CHR ''0'' \<longrightarrow> i = 0 \<and> length (fmt_d i) = 1))
     \<and> (\<forall>i. i < 0 \<longrightarrow> fmt_d i = CHR ''-'' # fmt_d (- i))\<close>
proof -
  have \<open>respond endpoint (Some r) err =
      Return (Some r) (Some (BitbucketError
         \<lparr>APIError = \<lparr>Message = ''nope''\<rparr>, Type = [], StatusCode = 404, Endpoint = endpoint\<rparr>))\<close>
    using assms(4,5) by (simp add: respond_def Unmarshal_nope)
  with Do_answer [OF assms(1,2,3)]
  have 1: \<open>fst (Do urlParse method endpoint payload addJsonHeader w) =
       Return (Some r) (Some (BitbucketError
         \<lparr>APIError = \<lparr>Message = ''nope''\<rparr>, Type = [], StatusCode = 404, Endpoint = endpoint\<rparr>))\<close>
    by simp
  have 2: \<open>Error_Error \<lparr>APIError = \<lparr>Message = ''nope''\<rparr>, Type = [], StatusCode = 404, Endpoint = endpoint\<rparr> =
         ''API Error: 404 '' @ endpoint @ '' nope''\<close>
    by (simp add: Error_Error_def fmt_d_404)
  have 3: \<open>\<forall>e. Error_Error e =
           ''API Error: '' @ fmt_d (StatusCode e) @ '' '' @ Endpoint e @ '' '' @ Message (APIError e)\<close>
    by (simp add: Error_Error_def)
  have 4: \<open>\<forall>i. i < 0 \<longrightarrow> fmt_d i = CHR ''-'' # fmt_d (- i)\<close>
    by (simp add: fmt_d_def)
  from 1 2 3 4 fmt_d_digits show ?thesis
    by blast
qed

theorem Error_format_witness:
  \<open>fst (Do acceptURL ''GET'' ''2.0/user'' None True
          (fresh (basicClient (answers (Some (reply 404 ''{"error":{"message":"nope"}}'')) None)))) =
     Return (Some (reply 404 ''{"error":{"message":"nope"}}'')) (Some (BitbucketError
       \<lparr>APIError = \<lparr>Message = ''nope''\<rparr>, Type = [], StatusCode = 404, Endpoint = ''2.0/user''\<rparr>))
   \<and> Error_Error \<lparr>APIError = \<lparr>Message = ''nope''\<rparr>, Type = [], StatusCode = 404, Endpoint = ''2.0/user''\<rparr> =
       ''API Error: 404 2.0/user nope''
   \<and> Error_Error \<lparr>APIError = \<lparr>Message = ''boom''\<rparr>, Type = [], StatusCode = 500, Endpoint = ''x''\<rparr> =
       ''API Error: 500 x boom''
   \<and> fmt_d (- 7) = CHR ''-'' # fmt_d 7\<close>
proof -
  let ?r = \<open>reply 404 ''{"error":{"message":"nope"}}''\<close>
  let ?w = \<open>fresh (basicClient (answers (Some ?r) None)) :: string world\<close>
  have 1: \<open>HTTPClient (client ?w) = Some (answers (Some ?r) None)\<close>
    by (simp add: fresh_def basicClient_def)
  have 2: \<open>answers (Some ?r) None (length (sent ?w))
      \<lparr>Method = ''GET'', URL = ''https://api.bitbucket.org/2.0/user'',
       Header = [''Authorization'' \<mapsto> [''Basic dTpw'']], Body = None, Close = True\<rparr> = (Some ?r, None)\<close>
    by (simp add: answers_def)
  have 3: \<open>RespStatusCode ?r = 404\<close> and 4: \<open>RespBody ?r = Inr ''{"error":{"message":"nope"}}''\<close>
    by (simp_all add: reply_def)
  note t = Error_format [OF Do_example_sent 1 2 3 4]
  from t have a: \<open>fst (Do acceptURL ''GET'' ''2.0/user'' None True ?w) =
     Return (Some ?r) (Some (BitbucketError
       \<lparr>APIError = \<lparr>Message = ''nope''\<rparr>, Type = [], StatusCode = 404, Endpoint = ''2.0/user''\<rparr>))\<close>
    by blast
  from t have b: \<open>Error_Error \<lparr>APIError = \<lparr>Message = ''nope''\<rparr>, Type = [], StatusCode = 404,
       Endpoint = ''2.0/user''\<rparr> = ''API Error: 404 '' @ ''2.0/user'' @ '' nope''\<close>
    by blast
  from t have g: \<open>\<forall>e. Error_Error e =
       ''API Error: '' @ fmt_d (StatusCode e) @ '' '' @ Endpoint e @ '' '' @ Message (APIError e)\<close>
    by blast
  from t have n: \<open>\<forall>i. i < 0 \<longrightarrow> fmt_d i = CHR ''-'' # fmt_d (- i)\<close>
    by blast
  have c: \<open>Error_Error \<lparr>APIError = \<lparr>Message = ''boom''\<rparr>, Type = [], StatusCode = 500, Endpoint = ''x''\<rparr> =
       ''API Error: 500 x boom''\<close>
    by (simp add: g fmt_d_500)
  from n have d: \<open>fmt_d (- 7) = CHR ''-'' # fmt_d 7\<close>
    by simp
  from a b c d show ?thesis
    by simp
qed

section \<open>Properties of the decoder\<close>

lemma storeString_eq: "storeString v old = (fitsString v, last (old # stringsOf v))"
  by (simp add: storeString_def fitsString_def stringsOf_def split: json.splits)

lemma storeInt_eq:
  "storeInt v old =
     (fitsInt v,
      case v of JNumber lit \<Rightarrow> (case parseInt64 lit of Some n \<Rightarrow> n | None \<Rightarrow> old) | _ \<Rightarrow> old)"
  by (simp add: storeInt_def fitsInt_def split: json.splits option.splits)

lemma last_last: "last (last (x # xs) # ys) = last (x # xs @ ys)"
  by (cases ys) simp_all

lemma storeBodyMember_eq:
  "storeBodyMember kv (ok, b) =
     (if equalFold (fst kv) ''message''
      then (ok \<and> fitsString (snd kv), b\<lparr>Message := last (Message b # stringsOf (snd kv))\<rparr>)
      else (ok, b))"
  by (cases kv) (simp add: storeBodyMember_def storeString_eq del: last.simps)

lemma fold_storeBodyMember:
  "fold storeBodyMember ms (ok, b) =
     (ok \<and> list_all (\<lambda>kv. equalFold (fst kv) ''message'' \<longrightarrow> fitsString (snd kv)) ms,
      b\<lparr>Message := last (Message b #
           concat (map (\<lambda>kv. if equalFold (fst kv) ''message'' then stringsOf (snd kv) else []) ms))\<rparr>)"
proof (induction ms arbitrary: ok b)
  case Nil
  show ?case by simp
next
  case (Cons kv ms)
  show ?case
    by (simp add: storeBodyMember_eq Cons.IH last_last del: last.simps)
qed

lemma storeBody_eq:
  "storeBody v old = (fitsBody v, old\<lparr>Message := last (Message old # bodyMessages v)\<rparr>)"
  by (cases v) (simp_all add: storeBody_def fitsBody_def bodyMessages_def fold_storeBodyMember)

lemma storeErrorMember_fits:
  "fst (storeErrorMember kv (ok, e)) = (ok \<and> fitsMember kv)"
  by (cases kv)
     (simp add: storeErrorMember_def fitsMember_def storeBody_eq storeString_eq storeInt_eq
        del: last.simps)

lemma storeErrorMember_message:
  "Message (APIError (snd (storeErrorMember kv (ok, e)))) =
     last (Message (APIError e) # (if equalFold (fst kv) ''error'' then bodyMessages (snd kv) else []))"
  by (cases kv)
     (simp add: storeErrorMember_def storeBody_eq storeString_eq storeInt_eq del: last.simps, simp)

lemma fold_storeErrorMember:
  "fst (fold storeErrorMember ms (ok, e)) = (ok \<and> list_all fitsMember ms)
   \<and> Message (APIError (snd (fold storeErrorMember ms (ok, e)))) =
       last (Message (APIError e) #
         concat (map (\<lambda>kv. if equalFold (fst kv) ''error'' then bodyMessages (snd kv) else []) ms))"
proof (induction ms arbitrary: ok e)
  case Nil
  show ?case by simp
next
  case (Cons kv ms)
  obtain ok' e' where s: "storeErrorMember kv (ok, e) = (ok', e')"
    by (cases "storeErrorMember kv (ok, e)")
  from s storeErrorMember_fits [of kv ok e] have ok': "ok' = (ok \<and> fitsMember kv)"
    by simp
  from s storeErrorMember_message [of kv ok e]
  have m: "Message (APIError e') =
      last (Message (APIError e) # (if equalFold (fst kv) ''error'' then bodyMessages (snd kv) else []))"
    by simp
  have "last (Message (APIError e') # ys) =
      last (Message (APIError e) #
        (if equalFold (fst kv) ''error'' then bodyMessages (snd kv) else []) @ ys)" for ys
    unfolding m by (rule last_last)
  with Cons.IH [of ok' e'] s ok' show ?case
    by (simp del: last.simps)
qed

lemma decodeError_fits: "fst (decodeError v e) = fitsError v"
  by (cases v) (simp_all add: decodeError_def fitsError_def fold_storeErrorMember)

lemma decodeError_message:
  "Message (APIError (snd (decodeError v e))) = last (Message (APIError e) # errorMessages v)"
proof (cases v)
  case (JObject ms)
  then show ?thesis
    by (simp add: decodeError_def errorMessages_def fold_storeErrorMember del: last.simps)
qed (simp_all add: decodeError_def errorMessages_def)

text \<open>The members that do not name \<^verbatim>\<open>StatusCode\<close> or \<^verbatim>\<open>Endpoint\<close> leave both fields alone.\<close>

lemma storeErrorMember_keeps:
  assumes "\<not> equalFold (fst kv) ''StatusCode''" and "\<not> equalFold (fst kv) ''Endpoint''"
  shows "StatusCode (snd (storeErrorMember kv (ok, e))) = StatusCode e
     \<and> Endpoint (snd (storeErrorMember kv (ok, e))) = Endpoint e"
  using assms
  by (cases kv) (simp add: storeErrorMember_def storeBody_eq storeString_eq del: last.simps)

lemma fold_storeErrorMember_keeps:
  assumes "\<forall>kv \<in> set ms. \<not> equalFold (fst kv) ''StatusCode'' \<and> \<not> equalFold (fst kv) ''Endpoint''"
  shows "StatusCode (snd (fold storeErrorMember ms (ok, e))) = StatusCode e
     \<and> Endpoint (snd (fold storeErrorMember ms (ok, e))) = Endpoint e"
  using assms
proof (induction ms arbitrary: ok e)
  case Nil
  show ?case by simp
next
  case (Cons kv ms)
  obtain ok' e' where s: "storeErrorMember kv (ok, e) = (ok', e')"
    by (cases "storeErrorMember kv (ok, e)")
  with storeErrorMember_keeps [of kv ok e] Cons.prems
  have "StatusCode e' = StatusCode e \<and> Endpoint e' = Endpoint e"
    by simp
  with Cons.IH [of ok' e'] Cons.prems s show ?case
    by simp
qed

lemmas json_defs = json_Unmarshal_def checkValid_def isSpace_def punct_def isDigit_def keyword_def
  scanNumber_def scanFrac_def scanExp_def parse_def step_def beginValue_def beginKey_def
  endValue_def pushValue_def closeFrame_def isArrayFrame_def isObjectFrame_def
  maxNestingDepth_def decodeError_def storeErrorMember_def storeBody_def storeBodyMember_def
  storeString_def storeInt_def parseInt64_def digitsVal_def equalFold_def Let_def

lemma json_Unmarshal_keeps:
  assumes "\<forall>ms. checkValid body = Some (JObject ms) \<longrightarrow>
      (\<forall>kv \<in> set ms. \<not> equalFold (fst kv) ''StatusCode'' \<and> \<not> equalFold (fst kv) ''Endpoint'')"
  shows "StatusCode (snd (json_Unmarshal body e)) = StatusCode e
     \<and> Endpoint (snd (json_Unmarshal body e)) = Endpoint e"
proof (cases "checkValid body")
  case None
  then show ?thesis by (simp add: json_Unmarshal_def)
next
  case (Some v)
  show ?thesis
  proof (cases v)
    case (JObject ms)
    with Some assms
    have "\<forall>kv \<in> set ms. \<not> equalFold (fst kv) ''StatusCode'' \<and> \<not> equalFold (fst kv) ''Endpoint''"
      by simp
    from fold_storeErrorMember_keeps [OF this, of True e] Some JObject show ?thesis
      by (cases "fold storeErrorMember ms (True, e)") (simp add: json_Unmarshal_def decodeError_def)
  qed (use Some in \<open>simp_all add: json_Unmarshal_def decodeError_def\<close>)
qed

text \<open>
  C1, as the code has it. When the HTTP client answers with a response whose status code
  is below 200 or at least 400, whose body can be read and is not a JSON object with a
  member named \<^verbatim>\<open>StatusCode\<close> or \<^verbatim>\<open>Endpoint\<close> (under the case folding of the decoder),
  \<^verbatim>\<open>Do\<close> returns that response together with an API error whose \<^verbatim>\<open>StatusCode\<close> is the
  status code of the response and whose \<^verbatim>\<open>Endpoint\<close> is the relative path asked for.
\<close>

theorem Do_api_error:
  assumes "sent (snd (Do urlParse method endpoint payload addJsonHeader w)) = sent w @ [req]"
    and "HTTPClient (client w) = Some httpClient"
    and "httpClient (length (sent w)) req = (Some r, err)"
    and "RespStatusCode r \<ge> 400 \<or> RespStatusCode r < 200"
    and "RespBody r = Inr body"
    and "\<forall>ms. checkValid body = Some (JObject ms) \<longrightarrow>
      (\<forall>kv \<in> set ms. \<not> equalFold (fst kv) ''StatusCode'' \<and> \<not> equalFold (fst kv) ''Endpoint'')"
  shows "\<exists>e. fst (Do urlParse method endpoint payload addJsonHeader w) =
           Return (Some r) (Some (BitbucketError e))
         \<and> StatusCode e = RespStatusCode r \<and> Endpoint e = endpoint"
proof -
  let ?init = "\<lparr>APIError = \<lparr>Message = []\<rparr>, Type = [], StatusCode = RespStatusCode r, Endpoint = endpoint\<rparr>"
  obtain jerr e' where u: "json_Unmarshal body ?init = (jerr, e')"
    by (cases "json_Unmarshal body ?init")
  with json_Unmarshal_keeps [OF assms(6), of ?init]
  have k: "StatusCode e' = RespStatusCode r" "Endpoint e' = endpoint"
    by simp_all
  from assms(4,5) u have "respond endpoint (Some r) err =
      Return (Some r) (Some (BitbucketError
        (if jerr \<noteq> None then e'\<lparr>APIError := (APIError e')\<lparr>Message := body\<rparr>\<rparr> else e')))"
    by (simp add: respond_def)
  with Do_answer [OF assms(1,2,3)] k show ?thesis
    by simp
qed

theorem Do_api_error_witness:
  "\<exists>e. fst (Do acceptURL ''GET'' ''2.0/user'' None True
            (fresh (basicClient (answers (Some (reply 500 ''internal failure'')) None)))) =
          Return (Some (reply 500 ''internal failure'')) (Some (BitbucketError e))
        \<and> StatusCode e = 500 \<and> Endpoint e = ''2.0/user''"
proof -
  let ?r = "reply 500 ''internal failure''"
  have 1: "HTTPClient (client (fresh (basicClient (answers (Some ?r) None)))) = Some (answers (Some ?r) None)"
    by (simp add: fresh_def basicClient_def)
  have 2: "answers (Some ?r) None (length (sent (fresh (basicClient (answers (Some ?r) None)))))
      \<lparr>Method = ''GET'', URL = ''https://api.bitbucket.org/2.0/user'',
       Header = [''Authorization'' \<mapsto> [''Basic dTpw'']], Body = None, Close = True\<rparr> = (Some ?r, None)"
    by (simp add: answers_def)
  have 3: "RespStatusCode ?r \<ge> 400 \<or> RespStatusCode ?r < 200" and 4: "RespBody ?r = Inr ''internal failure''"
    by (simp_all add: reply_def)
  have 5: "\<forall>ms. checkValid ''internal failure'' = Some (JObject ms) \<longrightarrow>
      (\<forall>kv \<in> set ms. \<not> equalFold (fst kv) ''StatusCode'' \<and> \<not> equalFold (fst kv) ''Endpoint'')"
    by (simp add: json_defs)
  from Do_api_error [OF Do_example_sent 1 2 3 4 5] show ?thesis
    by (simp add: reply_def)
qed

text \<open>
  C1, as the claim states it, fails three ways: a response with status 302 is returned
  with a nil error; the body \<^verbatim>\<open>{"StatusCode":200}\<close> of a 404 response is decoded into
  the \<^verbatim>\<open>StatusCode\<close> of the API error; and when the body of a 500 response cannot be
  read, neither the API error nor the response is returned.
\<close>

theorem Do_api_error_counterexample:
  \<open>fst (Do acceptURL ''GET'' ''2.0/user'' None True
          (fresh (basicClient (answers (Some (reply 302 ''moved'')) None)))) =
     Return (Some (reply 302 ''moved'')) None
   \<and> fst (Do acceptURL ''GET'' ''2.0/user'' None True
          (fresh (basicClient (answers (Some (reply 404 ''{"StatusCode":200}'')) None)))) =
     Return (Some (reply 404 ''{"StatusCode":200}'')) (Some (BitbucketError
       \<lparr>APIError = \<lparr>Message = []\<rparr>, Type = [], StatusCode = 200, Endpoint = ''2.0/user''\<rparr>))
   \<and> fst (Do acceptURL ''GET'' ''2.0/user'' None True
          (fresh (basicClient (answers
             (Some \<lparr>RespStatusCode = 500, RespBody = Inl ''connection reset''\<rparr>) None)))) =
     Return None (Some (ReadAllError ''connection reset''))\<close>
  by (simp add: Do_example respond_def reply_def json_defs)

text \<open>
  C4, as the code has it. For a response with a status code below 200 or at least 400
  whose body can be read, the message of the API error is decided by
  \<^verbatim>\<open>json.Unmarshal\<close>. When it succeeds, which is when the body is well-formed JSON and
  its value fits the struct, the message is the nested \<^verbatim>\<open>error.message\<close> string of the
  body, empty when the body gives none. When it fails, which is when the body is not
  well-formed JSON and also when it is JSON that does not fit the struct, the message
  is the body as it is.
\<close>

theorem Do_api_error_message:
  assumes "sent (snd (Do urlParse method endpoint payload addJsonHeader w)) = sent w @ [req]"
    and "HTTPClient (client w) = Some httpClient"
    and "httpClient (length (sent w)) req = (Some r, err)"
    and "RespStatusCode r \<ge> 400 \<or> RespStatusCode r < 200"
    and "RespBody r = Inr body"
  shows "\<exists>e. fst (Do urlParse method endpoint payload addJsonHeader w) =
           Return (Some r) (Some (BitbucketError e))
         \<and> Message (APIError e) =
             (case checkValid body of
                None \<Rightarrow> body
              | Some v \<Rightarrow> if fitsError v then nestedMessage v else body)"
proof -
  let ?init = "\<lparr>APIError = \<lparr>Message = []\<rparr>, Type = [], StatusCode = RespStatusCode r, Endpoint = endpoint\<rparr>"
  obtain jerr e' where u: "json_Unmarshal body ?init = (jerr, e')"
    by (cases "json_Unmarshal body ?init")
  let ?final = "if jerr \<noteq> None then e'\<lparr>APIError := (APIError e')\<lparr>Message := body\<rparr>\<rparr> else e'"
  from assms(4,5) u have "respond endpoint (Some r) err = Return (Some r) (Some (BitbucketError ?final))"
    by (simp add: respond_def)
  with Do_answer [OF assms(1,2,3)]
  have D: "fst (Do urlParse method endpoint payload addJsonHeader w) =
      Return (Some r) (Some (BitbucketError ?final))"
    by simp
  have "Message (APIError ?final) =
      (case checkValid body of
         None \<Rightarrow> body
       | Some v \<Rightarrow> if fitsError v then nestedMessage v else body)"
  proof (cases "checkValid body")
    case None
    with u show ?thesis by (auto simp: json_Unmarshal_def)
  next
    case (Some v)
    obtain ok d where d: "decodeError v ?init = (ok, d)"
      by (cases "decodeError v ?init")
    with decodeError_fits [of v ?init] decodeError_message [of v ?init]
    have "ok = fitsError v" "Message (APIError d) = nestedMessage v"
      by (simp_all add: nestedMessage_def del: last.simps)
    with Some u d show ?thesis
      by (auto simp: json_Unmarshal_def)
  qed
  with D show ?thesis by blast
qed

theorem Do_api_error_message_witness:
  "\<exists>e. fst (Do acceptURL ''GET'' ''2.0/user'' None True
            (fresh (basicClient (answers (Some (reply 500 ''internal failure'')) None)))) =
          Return (Some (reply 500 ''internal failure'')) (Some (BitbucketError e))
        \<and> Message (APIError e) = ''internal failure''"
proof -
  let ?r = "reply 500 ''internal failure''"
  have 1: "HTTPClient (client (fresh (basicClient (answers (Some ?r) None)))) = Some (answers (Some ?r) None)"
    by (simp add: fresh_def basicClient_def)
  have 2: "answers (Some ?r) None (length (sent (fresh (basicClient (answers (Some ?r) None)))))
      \<lparr>Method = ''GET'', URL = ''https://api.bitbucket.org/2.0/user'',
       Header = [''Authorization'' \<mapsto> [''Basic dTpw'']], Body = None, Close = True\<rparr> = (Some ?r, None)"
    by (simp add: answers_def)
  have 3: "RespStatusCode ?r \<ge> 400 \<or> RespStatusCode ?r < 200" and 4: "RespBody ?r = Inr ''internal failure''"
    by (simp_all add: reply_def)
  have 5: "checkValid ''internal failure'' = None"
    by (simp add: json_defs)
  from Do_api_error_message [OF Do_example_sent 1 2 3 4] show ?thesis
    by (simp add: 5)
qed

text \<open>
  C4, as the claim states it, fails both ways. The body
  \<^verbatim>\<open>{"error":{"message":"nope"},"type":7}\<close> is well-formed JSON with a nested
  \<^verbatim>\<open>error.message\<close>, and the message is the whole body, because \<^verbatim>\<open>7\<close> is no string for
  \<^verbatim>\<open>type\<close>. The body \<^verbatim>\<open>{"detail":"x"}\<close> has another shape, and the message is empty,
  not the body.
\<close>

theorem Do_api_error_message_counterexample:
  \<open>fst (Do acceptURL ''GET'' ''2.0/user'' None True
          (fresh (basicClient (answers (Some (reply 400 ''{"error":{"message":"nope"},"type":7}'')) None)))) =
     Return (Some (reply 400 ''{"error":{"message":"nope"},"type":7}'')) (Some (BitbucketError
       \<lparr>APIError = \<lparr>Message = ''{"error":{"message":"nope"},"type":7}''\<rparr>, Type = [],
        StatusCode = 400, Endpoint = ''2.0/user''\<rparr>))
   \<and> fst (Do acceptURL ''GET'' ''2.0/user'' None True
          (fresh (basicClient (answers (Some (reply 400 ''{"detail":"x"}'')) None)))) =
     Return (Some (reply 400 ''{"detail":"x"}'')) (Some (BitbucketError
       \<lparr>APIError = \<lparr>Message = []\<rparr>, Type = [], StatusCode = 400, Endpoint = ''2.0/user''\<rparr>))\<close>
  by (simp add: Do_example respond_def reply_def json_defs)

end
